theory Spec2Isabelle
  imports Main "HOL-Library.Word"
begin

section \<open>The folder service of \<open>pkg/services/folder/folderimpl/folder.go\<close>\<close>

text \<open>
  The service composes two persistence backends, the legacy dashboard table and the
  nested folder table, with an access evaluator. In the Go source every backend is an
  interface held in a field of \<open>Service\<close>; the embedding keeps that shape: each
  interface is a record of operations over a database state \<open>'s\<close>, and every method of
  the service is a function of the service record and the state. Reads are functions
  of the state, writes return the new state. A Go result \<open>(value, error)\<close> is a sum with
  \<open>Inl\<close> the error, except where the source returns a value together with an error.
\<close>

subsection \<open>Errors\<close>

text \<open>
  The error values named in the source. The errors of package \<open>folder\<close> are built with
  \<open>Errorf\<close> and carry their message; \<open>ErrInternal\<close> wraps the error given to \<open>%w\<close>, and
  \<open>ErrWrapped\<close> is \<open>fmt.Errorf("...: %w", err)\<close>. The two not-found errors are the
  distinct values \<open>folder.ErrFolderNotFound\<close> and \<open>dashboards.ErrFolderNotFound\<close>.
  \<open>ErrOther\<close> stands for any other error of a collaborator.
\<close>

datatype error =
    ErrBadRequest string
  | ErrInternal string error
  | ErrMaximumDepthReached string
  | ErrCircularReference string
  | folder_ErrFolderNotFound string
  | ErrWrapped string error
  | dashboards_ErrFolderNotFound
  | ErrFolderAccessDenied
  | ErrFolderInvalidUID
  | ErrFolderTitleEmpty
  | ErrFolderSameNameExists
  | ErrFolderWithSameUIDExists
  | ErrFolderVersionMismatch
  | ErrDashboardTitleEmpty
  | ErrDashboardUpdateAccessDenied
  | ErrDashboardWithSameNameInFolderExists
  | ErrDashboardWithSameUIDExists
  | ErrDashboardVersionMismatch
  | ErrDashboardNotFound
  | ErrDashboardFolderCannotHaveParent
  | ErrDashboardFolderNameExists
  | ErrDashboardInvalidUid
  | ErrDashboardUidTooLong
  | ErrOther string

text \<open>
  \<open>errors.Is\<close>: the error or one it wraps is the target; errors built from one base
  with different messages count as the same.
\<close>

fun MessageID :: "error \<Rightarrow> string option" where
  "MessageID (ErrBadRequest _) = Some ''folder.bad-request''"
| "MessageID (ErrInternal _ _) = Some ''folder.internal''"
| "MessageID (ErrMaximumDepthReached _) = Some ''folder.maximum-depth-reached''"
| "MessageID (ErrCircularReference _) = Some ''folder.circular-reference''"
| "MessageID (folder_ErrFolderNotFound _) = Some ''folder.notFound''"
| "MessageID e = None"

definition same_base :: "error \<Rightarrow> error \<Rightarrow> bool" where
  "same_base e t = (case MessageID e of Some i \<Rightarrow> MessageID t = Some i | None \<Rightarrow> e = t)"

fun errors_Is :: "error \<Rightarrow> error \<Rightarrow> bool" where
  "errors_Is (ErrInternal m e) t = (same_base (ErrInternal m e) t \<or> errors_Is e t)"
| "errors_Is (ErrWrapped m e) t = (same_base (ErrWrapped m e) t \<or> errors_Is e t)"
| "errors_Is e t = same_base e t"

definition toFolderError :: "error \<Rightarrow> error" where
  "toFolderError err =
     (if errors_Is err ErrDashboardTitleEmpty then ErrFolderTitleEmpty
      else if errors_Is err ErrDashboardUpdateAccessDenied then ErrFolderAccessDenied
      else if errors_Is err ErrDashboardWithSameNameInFolderExists then ErrFolderSameNameExists
      else if errors_Is err ErrDashboardWithSameUIDExists then ErrFolderWithSameUIDExists
      else if errors_Is err ErrDashboardVersionMismatch then ErrFolderVersionMismatch
      else if errors_Is err ErrDashboardNotFound then dashboards_ErrFolderNotFound
      else err)"

subsection \<open>Data\<close>

text \<open>
  Go's \<open>int64\<close> ids and versions are \<open>int\<close>: the service only compares and copies
  them. The one sum it forms, the depth check of \<open>Move\<close>, adds Go \<open>int\<close>s; there the
  height is a 64-bit word and the sum wraps as on a 64-bit platform.
  Timestamps (with \<open>UpdatedAt\<close> of a save, which the service never sets), the URL and
  the slug of a folder are left out: the service copies them and no decision reads
  them.
\<close>

record Requester =
  NamespaceID :: string
  NamespacedUserID :: string
  IsNil :: bool

record Folder =
  ID :: int
  OrgID :: int
  UID :: string
  ParentUID :: string
  Title :: string
  Description :: string
  Version :: int

record GetFolderQuery =
  q_UID :: "string option"
  q_ID :: "int option"
  q_Title :: "string option"
  q_OrgID :: int
  q_SignedInUser :: "Requester option"

record GetChildrenQuery =
  gc_UID :: string
  gc_OrgID :: int
  gc_SignedInUser :: "Requester option"

record GetParentsQuery =
  gp_UID :: string
  gp_OrgID :: int

record CreateFolderCommand =
  c_UID :: string
  c_OrgID :: int
  c_Title :: string
  c_Description :: string
  c_ParentUID :: string
  c_SignedInUser :: "Requester option"

record UpdateFolderCommand =
  u_UID :: string
  u_OrgID :: int
  u_NewTitle :: "string option"
  u_NewDescription :: "string option"
  u_NewParentUID :: "string option"
  u_Version :: int
  u_Overwrite :: bool
  u_SignedInUser :: "Requester option"

record MoveFolderCommand =
  m_UID :: string
  m_NewParentUID :: string
  m_OrgID :: int
  m_SignedInUser :: "Requester option"

record DeleteFolderCommand =
  d_UID :: string
  d_OrgID :: int
  d_ForceDeleteRules :: bool
  d_SignedInUser :: "Requester option"

text \<open>The JSON body of a dashboard row: the keys the service sets with \<open>Data.Set\<close>.\<close>

datatype JValue = JString string | JInt int

type_synonym Json = "(string \<times> JValue) list"

fun Json_Set :: "string \<Rightarrow> JValue \<Rightarrow> Json \<Rightarrow> Json" where
  "Json_Set k v [] = [(k, v)]"
| "Json_Set k v ((k', v') # d) = (if k' = k then (k, v) # d else (k', v') # Json_Set k v d)"

record Dashboard =
  dash_ID :: int
  dash_UID :: string
  dash_OrgID :: int
  dash_Title :: string
  dash_Version :: int
  dash_FolderID :: int
  dash_FolderUID :: string
  dash_IsFolder :: bool
  dash_CreatedBy :: int
  dash_UpdatedBy :: int
  dash_PluginID :: string
  dash_Data :: Json

record SaveDashboardDTO =
  dto_Dashboard :: Dashboard
  dto_OrgID :: int
  dto_User :: Requester
  dto_Overwrite :: bool
  dto_Message :: string

record SaveDashboardCommand =
  sc_Dashboard :: Json
  sc_Message :: string
  sc_OrgID :: int
  sc_Overwrite :: bool
  sc_UserID :: int
  sc_FolderID :: int
  sc_FolderUID :: string
  sc_IsFolder :: bool
  sc_PluginID :: string

record DeleteDashboardCommand =
  dd_ID :: int
  dd_OrgID :: int
  dd_ForceDeleteFolderRules :: bool

record GetDashboardQuery =
  gd_OrgID :: int
  gd_UID :: string

record FolderTitleUpdated =
  ev_Title :: string
  ev_ID :: int
  ev_UID :: string
  ev_OrgID :: int

datatype Evaluator = EvalPermission string "string list"

text \<open>A guardian is the object whose methods answer the permission questions.\<close>

record DashboardGuardian =
  CanView :: "error + bool"
  CanDelete :: "error + bool"
  CanSave :: "error + bool"
  CanCreate :: "int \<Rightarrow> bool \<Rightarrow> error + bool"

subsection \<open>Constants and helpers of other packages\<close>

text \<open>
  Modelled from the spec: the constants and the small helpers of packages \<open>folder\<close>,
  \<open>dashboards\<close>, \<open>accesscontrol\<close> and \<open>identity\<close> that the service uses are not among the
  sources. The maximum depth is 8; the reserved UID is \<open>general\<close>; the implicit root
  folder has id 0 and title \<open>General\<close>; a new folder row is a dashboard row of kind
  folder carrying the title; the folder view of a row copies id, UID, org, title and
  version.
\<close>

definition MaxNestedFolderDepth :: int where
  "MaxNestedFolderDepth = 8"

definition GeneralFolderUID :: string where
  "GeneralFolderUID = ''general''"

definition RootFolderName :: string where
  "RootFolderName = ''General''"

definition NamespaceUser :: string where
  "NamespaceUser = ''user''"

definition NamespaceServiceAccount :: string where
  "NamespaceServiceAccount = ''service-account''"

definition ActionFoldersWrite :: string where
  "ActionFoldersWrite = ''folders:write''"

definition ActionFoldersCreate :: string where
  "ActionFoldersCreate = ''folders:create''"

definition GetResourceScopeUID :: "string \<Rightarrow> string" where
  "GetResourceScopeUID uid = ''folders:uid:'' @ uid"

definition GeneralFolder :: Folder where
  "GeneralFolder = \<lparr>ID = 0, OrgID = 0, UID = [], ParentUID = [], Title = ''General'',
     Description = [], Version = 0\<rparr>"

definition IsGeneral :: "Folder \<Rightarrow> bool" where
  "IsGeneral f = (ID f = ID GeneralFolder \<and> Title f = Title GeneralFolder)"

definition NewDashboardFolder :: "string \<Rightarrow> Dashboard" where
  "NewDashboardFolder title =
     \<lparr>dash_ID = 0, dash_UID = [], dash_OrgID = 0, dash_Title = title, dash_Version = 0,
      dash_FolderID = 0, dash_FolderUID = [], dash_IsFolder = True, dash_CreatedBy = 0,
      dash_UpdatedBy = 0, dash_PluginID = [],
      dash_Data = [(''title'', JString title), (''schemaVersion'', JInt 17), (''version'', JInt 0)]\<rparr>"

definition SetUID :: "string \<Rightarrow> Dashboard \<Rightarrow> Dashboard" where
  "SetUID uid d = d\<lparr>dash_UID := uid, dash_Data := Json_Set ''uid'' (JString uid) (dash_Data d)\<rparr>"

definition SetVersion :: "int \<Rightarrow> Dashboard \<Rightarrow> Dashboard" where
  "SetVersion v d = d\<lparr>dash_Version := v, dash_Data := Json_Set ''version'' (JInt v) (dash_Data d)\<rparr>"

definition FromDashboard :: "Dashboard \<Rightarrow> Folder" where
  "FromDashboard d =
     \<lparr>ID = dash_ID d, OrgID = dash_OrgID d, UID = dash_UID d, ParentUID = [],
      Title = dash_Title d, Description = [], Version = dash_Version d\<rparr>"

text \<open>
  \<open>strings.TrimSpace\<close>. A Go string is a sequence of bytes that is read as UTF-8, and
  \<open>TrimSpace\<close> removes the leading and the trailing runes that \<open>unicode.IsSpace\<close> accepts:
  U+0009 to U+000D, U+0020, U+0085, U+00A0, U+1680, U+2000 to U+200A, U+2028, U+2029,
  U+202F, U+205F and U+3000. \<open>whiteSpace\<close> lists their encodings. The decoder reads a rune
  of this list exactly where its bytes stand, from the front and from the back, and it
  reads any other bytes, well-formed or not, as a rune that is not white space.
\<close>

definition whiteSpace :: "string list" where
  "whiteSpace =
     [[CHR 0x09], [CHR 0x0A], [CHR 0x0B], [CHR 0x0C], [CHR 0x0D], [CHR 0x20],
      [CHR 0xC2, CHR 0x85], [CHR 0xC2, CHR 0xA0], [CHR 0xE1, CHR 0x9A, CHR 0x80],
      [CHR 0xE2, CHR 0x80, CHR 0x80], [CHR 0xE2, CHR 0x80, CHR 0x81],
      [CHR 0xE2, CHR 0x80, CHR 0x82], [CHR 0xE2, CHR 0x80, CHR 0x83],
      [CHR 0xE2, CHR 0x80, CHR 0x84], [CHR 0xE2, CHR 0x80, CHR 0x85],
      [CHR 0xE2, CHR 0x80, CHR 0x86], [CHR 0xE2, CHR 0x80, CHR 0x87],
      [CHR 0xE2, CHR 0x80, CHR 0x88], [CHR 0xE2, CHR 0x80, CHR 0x89],
      [CHR 0xE2, CHR 0x80, CHR 0x8A], [CHR 0xE2, CHR 0x80, CHR 0xA8],
      [CHR 0xE2, CHR 0x80, CHR 0xA9], [CHR 0xE2, CHR 0x80, CHR 0xAF],
      [CHR 0xE2, CHR 0x81, CHR 0x9F], [CHR 0xE3, CHR 0x80, CHR 0x80]]"

text \<open>
  The width in bytes of the white-space rune at the front and at the back of a
  string, 0 where the rune there is not white space or the string is empty.
\<close>

definition firstSpace :: "string \<Rightarrow> nat" where
  "firstSpace s =
     (case find (\<lambda>w. take (length w) s = w) whiteSpace of None \<Rightarrow> 0 | Some w \<Rightarrow> length w)"

definition lastSpace :: "string \<Rightarrow> nat" where
  "lastSpace s =
     (case find (\<lambda>w. drop (length s - length w) s = w) whiteSpace of
        None \<Rightarrow> 0
      | Some w \<Rightarrow> length w)"

function TrimLeft :: "string \<Rightarrow> string" where
  "TrimLeft s = (if firstSpace s = 0 then s else TrimLeft (drop (firstSpace s) s))"
  by pat_completeness auto

termination
proof (relation "measure length")
  fix s :: string
  assume "firstSpace s \<noteq> 0"
  moreover have "firstSpace [] = 0"
    by (simp add: firstSpace_def whiteSpace_def)
  ultimately have "s \<noteq> []" by auto
  with \<open>firstSpace s \<noteq> 0\<close> show "(drop (firstSpace s) s, s) \<in> measure length"
    by simp
qed simp

function TrimRight :: "string \<Rightarrow> string" where
  "TrimRight s = (if lastSpace s = 0 then s else TrimRight (take (length s - lastSpace s) s))"
  by pat_completeness auto

termination
proof (relation "measure length")
  fix s :: string
  assume "lastSpace s \<noteq> 0"
  moreover have "lastSpace [] = 0"
    by (simp add: lastSpace_def whiteSpace_def)
  ultimately have "s \<noteq> []" by auto
  with \<open>lastSpace s \<noteq> 0\<close> show "(take (length s - lastSpace s) s, s) \<in> measure length"
    by simp
qed simp

declare TrimLeft.simps [simp del] TrimRight.simps [simp del]

definition TrimSpace :: "string \<Rightarrow> string" where
  "TrimSpace s = TrimRight (TrimLeft s)"

text \<open>
  \<open>strings.EqualFold\<close>, for its one call, which compares a title with the root folder's
  name \<open>General\<close>: Unicode case folding pairs each of the letters of that name with its
  other case only, so the comparison is the one of the bytes with \<open>A\<close>..\<open>Z\<close> mapped to
  \<open>a\<close>..\<open>z\<close>.
\<close>

definition toLower :: "char \<Rightarrow> char" where
  "toLower c = (let n = (of_char c :: nat) in if 65 \<le> n \<and> n \<le> 90 then char_of (n + 32) else c)"

definition EqualFold :: "string \<Rightarrow> string \<Rightarrow> bool" where
  "EqualFold a b = (map toLower a = map toLower b)"

subsection \<open>The collaborators of the service\<close>

text \<open>The nested folder store (\<open>s.store\<close>).\<close>

record 's NestedStore =
  store_Get :: "'s \<Rightarrow> GetFolderQuery \<Rightarrow> error + Folder"
  store_GetChildren :: "'s \<Rightarrow> GetChildrenQuery \<Rightarrow> error + Folder list"
  store_GetParents :: "'s \<Rightarrow> GetParentsQuery \<Rightarrow> error + Folder list"
  store_GetHeight :: "'s \<Rightarrow> string \<Rightarrow> int \<Rightarrow> string option \<Rightarrow> error + 64 word"
  store_Create :: "CreateFolderCommand \<Rightarrow> 's \<Rightarrow> (error + Folder option) \<times> 's"
  store_Update :: "UpdateFolderCommand \<Rightarrow> 's \<Rightarrow> (error + Folder) \<times> 's"
  store_Delete :: "string \<Rightarrow> int \<Rightarrow> 's \<Rightarrow> error option \<times> 's"

text \<open>
  The legacy store as a store of dashboard rows (\<open>s.dashboardStore\<close>). The validation
  may set fields of the row it is given, so it returns the row; the flag it returns
  next to the error is not read by the service.
\<close>

record 's DashboardStore =
  SaveDashboard :: "SaveDashboardCommand \<Rightarrow> 's \<Rightarrow> (error + Dashboard) \<times> 's"
  DeleteDashboard :: "DeleteDashboardCommand \<Rightarrow> 's \<Rightarrow> error option \<times> 's"
  GetDashboard :: "'s \<Rightarrow> GetDashboardQuery \<Rightarrow> error + Dashboard"
  ValidateDashboardBeforeSave :: "'s \<Rightarrow> Dashboard \<Rightarrow> bool \<Rightarrow> error + Dashboard"

text \<open>The legacy store as a store of folders (\<open>s.dashboardFolderStore\<close>).\<close>

record 's FolderStore =
  GetFolderByUID :: "'s \<Rightarrow> int \<Rightarrow> string \<Rightarrow> error + Folder"
  GetFolderByID :: "'s \<Rightarrow> int \<Rightarrow> int \<Rightarrow> error + Folder"
  GetFolderByTitle :: "'s \<Rightarrow> int \<Rightarrow> string \<Rightarrow> error + Folder"
  GetFolders :: "'s \<Rightarrow> int \<Rightarrow> string list \<Rightarrow> error + (string \<rightharpoonup> Folder)"

text \<open>
  The functions of package \<open>guardian\<close> (variables of function type in Go), of
  \<open>identity\<close> and of \<open>util\<close> that the service calls. \<open>IntIdentifier\<close> returns the number
  together with the error, as the source assigns both.
\<close>

record 's Packages =
  guardian_New :: "'s \<Rightarrow> int \<Rightarrow> int \<Rightarrow> Requester \<Rightarrow> error + DashboardGuardian"
  guardian_NewByUID :: "'s \<Rightarrow> string \<Rightarrow> int \<Rightarrow> Requester \<Rightarrow> error + DashboardGuardian"
  guardian_NewByFolder :: "'s \<Rightarrow> Folder \<Rightarrow> int \<Rightarrow> Requester \<Rightarrow> error + DashboardGuardian"
  guardian_NewByDashboard :: "'s \<Rightarrow> Dashboard \<Rightarrow> int \<Rightarrow> Requester \<Rightarrow> error + DashboardGuardian"
  IntIdentifier :: "string \<Rightarrow> string \<Rightarrow> int \<times> error option"
  IsValidShortUID :: "string \<Rightarrow> bool"
  IsShortUIDTooLong :: "string \<Rightarrow> bool"

text \<open>
  The service itself. \<open>features\<close> is the answer of \<open>IsEnabled(FlagNestedFolders)\<close>, and
  \<open>db\<close> is \<open>InTransaction\<close>. The registry is a Go map from the kind to its handler, and
  a \<open>range\<close> over it visits the handlers in an order that Go does not fix: \<open>registry\<close> is
  the list of the handlers' \<open>DeleteInFolder\<close> in the order of the visit, and a statement
  about every service is one about every such order.
\<close>

record 's Service =
  store :: "'s NestedStore"
  dashboardStore :: "'s DashboardStore"
  dashboardFolderStore :: "'s FolderStore"
  features :: bool
  accessControl :: "'s \<Rightarrow> Requester \<Rightarrow> Evaluator \<Rightarrow> error + bool"
  bus :: "FolderTitleUpdated \<Rightarrow> 's \<Rightarrow> error option \<times> 's"
  registry :: "(string \<times> (int \<Rightarrow> string \<Rightarrow> Requester \<Rightarrow> 's \<Rightarrow> error option \<times> 's)) list"
  pkg :: "'s Packages"

text \<open>
  Modelled from the spec: \<open>db.InTransaction\<close> is not among the sources. A transaction
  whose body returns an error leaves the database as it was.
\<close>

definition InTransaction :: "('s \<Rightarrow> (error + 'a) \<times> 's) \<Rightarrow> 's \<Rightarrow> (error + 'a) \<times> 's" where
  "InTransaction body s =
     (case body s of
        (Inl e, _) \<Rightarrow> (Inl e, s)
      | (Inr v, s') \<Rightarrow> (Inr v, s'))"

subsection \<open>Get, GetChildren, GetParents\<close>

definition getFolderByID :: "'s Service \<Rightarrow> 's \<Rightarrow> int \<Rightarrow> int \<Rightarrow> error + Folder" where
  "getFolderByID svc s fid orgID =
     (if fid = 0 then Inr GeneralFolder
      else GetFolderByID (dashboardFolderStore svc) s orgID fid)"

definition getFolderByUID :: "'s Service \<Rightarrow> 's \<Rightarrow> int \<Rightarrow> string \<Rightarrow> error + Folder" where
  "getFolderByUID svc s orgID uid = GetFolderByUID (dashboardFolderStore svc) s orgID uid"

definition getFolderByTitle :: "'s Service \<Rightarrow> 's \<Rightarrow> int \<Rightarrow> string \<Rightarrow> error + Folder" where
  "getFolderByTitle svc s orgID title = GetFolderByTitle (dashboardFolderStore svc) s orgID title"

text \<open>The \<open>switch\<close> of \<open>Get\<close>: the legacy lookup that the selectors of the query choose.\<close>

definition Get_lookup :: "'s Service \<Rightarrow> 's \<Rightarrow> GetFolderQuery \<Rightarrow> error + Folder" where
  "Get_lookup svc s cmd =
     (if q_UID cmd \<noteq> None \<and> the (q_UID cmd) \<noteq> []
        then getFolderByUID svc s (q_OrgID cmd) (the (q_UID cmd))
      else if q_ID cmd \<noteq> None
        then getFolderByID svc s (the (q_ID cmd)) (q_OrgID cmd)
      else if q_Title cmd \<noteq> None
        then getFolderByTitle svc s (q_OrgID cmd) (the (q_Title cmd))
      else Inl (ErrBadRequest ''either on of UID, ID, Title fields must be present''))"

definition Get :: "'s Service \<Rightarrow> GetFolderQuery \<Rightarrow> 's \<Rightarrow> error + Folder" where
  "Get svc cmd s =
     (case q_SignedInUser cmd of
        None \<Rightarrow> Inl (ErrBadRequest ''missing signed in user'')
      | Some user \<Rightarrow>
         (case Get_lookup svc s cmd of
            Inl err \<Rightarrow> Inl err
          | Inr dashFolder \<Rightarrow>
             if IsGeneral dashFolder then Inr dashFolder
             else
               (case guardian_NewByFolder (pkg svc) s dashFolder (OrgID dashFolder) user of
                  Inl err \<Rightarrow> Inl err
                | Inr g \<Rightarrow>
                   (case CanView g of
                      Inl err \<Rightarrow> Inl (toFolderError err)
                    | Inr canView \<Rightarrow>
                       if \<not> canView then Inl ErrFolderAccessDenied
                       else if \<not> features svc then Inr dashFolder
                       else
                         (let cmd' = (if q_ID cmd \<noteq> None
                                      then cmd\<lparr>q_ID := None, q_UID := Some (UID dashFolder)\<rparr>
                                      else cmd)
                          in case store_Get (store svc) s cmd' of
                               Inl err \<Rightarrow> Inl err
                             | Inr f \<Rightarrow>
                                Inr (f\<lparr>ID := ID dashFolder, Version := Version dashFolder\<rparr>))))))"

text \<open>
  The second loop of \<open>GetChildren\<close>: \<open>root\<close> says that the query is for the root level
  (\<open>cmd.UID == ""\<close>), where every child has its own view check.
\<close>

fun GetChildren_loop ::
  "'s Service \<Rightarrow> 's \<Rightarrow> bool \<Rightarrow> Requester \<Rightarrow> (string \<rightharpoonup> Folder) \<Rightarrow> Folder list \<Rightarrow> Folder list
     \<Rightarrow> error + Folder list" where
  "GetChildren_loop svc s root user dashFolders [] filtered = Inr filtered"
| "GetChildren_loop svc s root user dashFolders (f # fs) filtered =
     (case dashFolders (UID f) of
        None \<Rightarrow> GetChildren_loop svc s root user dashFolders fs filtered
      | Some dashFolder \<Rightarrow>
         (let f' = f\<lparr>ID := ID dashFolder\<rparr> in
          if \<not> root then GetChildren_loop svc s root user dashFolders fs (filtered @ [f'])
          else
            (case guardian_NewByFolder (pkg svc) s dashFolder (OrgID dashFolder) user of
               Inl err \<Rightarrow> Inl err
             | Inr g \<Rightarrow>
                (case CanView g of
                   Inl err \<Rightarrow> Inl err
                 | Inr canView \<Rightarrow>
                    GetChildren_loop svc s root user dashFolders fs
                      (if canView then filtered @ [f'] else filtered)))))"

definition GetChildren :: "'s Service \<Rightarrow> GetChildrenQuery \<Rightarrow> 's \<Rightarrow> error + Folder list" where
  "GetChildren svc cmd s =
     (case gc_SignedInUser cmd of
        None \<Rightarrow> Inl (ErrBadRequest ''missing signed in user'')
      | Some user \<Rightarrow>
         (case (if gc_UID cmd \<noteq> []
                then (case guardian_NewByUID (pkg svc) s (gc_UID cmd) (gc_OrgID cmd) user of
                        Inl err \<Rightarrow> Some err
                      | Inr g \<Rightarrow>
                         (case CanView g of
                            Inl err \<Rightarrow> Some err
                          | Inr canView \<Rightarrow>
                             if \<not> canView then Some ErrFolderAccessDenied else None))
                else None) of
            Some err \<Rightarrow> Inl err
          | None \<Rightarrow>
             (case store_GetChildren (store svc) s cmd of
                Inl err \<Rightarrow> Inl err
              | Inr children \<Rightarrow>
                 (let childrenUIDs = map UID children in
                  case GetFolders (dashboardFolderStore svc) s (gc_OrgID cmd) childrenUIDs of
                    Inl err \<Rightarrow>
                      Inl (ErrInternal ''failed to fetch subfolders from dashboard store'' err)
                  | Inr dashFolders \<Rightarrow>
                      GetChildren_loop svc s (gc_UID cmd = []) user dashFolders children []))))"

definition GetParents :: "'s Service \<Rightarrow> GetParentsQuery \<Rightarrow> 's \<Rightarrow> error + Folder list" where
  "GetParents svc q s =
     (if \<not> features svc then Inr []
      else store_GetParents (store svc) s q)"

subsection \<open>The save path shared by Create and Update\<close>

definition getGuardianForSavePermissionCheck ::
  "'s Service \<Rightarrow> 's \<Rightarrow> Dashboard \<Rightarrow> Requester \<Rightarrow> error + DashboardGuardian" where
  "getGuardianForSavePermissionCheck svc s d user =
     (let newDashboard = (dash_ID d = 0) in
      if newDashboard then guardian_New (pkg svc) s (dash_FolderID d) (dash_OrgID d) user
      else guardian_NewByDashboard (pkg svc) s d (dash_OrgID d) user)"

text \<open>
  The user id of a principal, as Create and buildSaveDashboardCommand each compute
  it: 0 outside the user and service-account namespaces, else the number
  \<open>IntIdentifier\<close> returns (its error is only logged).
\<close>

definition userID_of :: "'s Service \<Rightarrow> Requester \<Rightarrow> int" where
  "userID_of svc user =
     (let namespaceID = NamespaceID user; userIDstr = NamespacedUserID user in
      if namespaceID \<noteq> NamespaceUser \<and> namespaceID \<noteq> NamespaceServiceAccount then 0
      else fst (IntIdentifier (pkg svc) namespaceID userIDstr))"

definition buildSaveDashboardCommand ::
  "'s Service \<Rightarrow> 's \<Rightarrow> SaveDashboardDTO \<Rightarrow> error + SaveDashboardCommand" where
  "buildSaveDashboardCommand svc s dto =
     (let dash0 = dto_Dashboard dto;
          dash1 = dash0\<lparr>dash_OrgID := dto_OrgID dto\<rparr>;
          dash2 = dash1\<lparr>dash_Title := TrimSpace (dash_Title dash1)\<rparr>;
          dash3 = dash2\<lparr>dash_Data := Json_Set ''title'' (JString (dash_Title dash2)) (dash_Data dash2)\<rparr>;
          dash = SetUID (TrimSpace (dash_UID dash3)) dash3
      in
      if dash_Title dash = [] then Inl ErrDashboardTitleEmpty
      else if dash_IsFolder dash \<and> dash_FolderID dash > 0 then Inl ErrDashboardFolderCannotHaveParent
      else if dash_IsFolder dash \<and> EqualFold (dash_Title dash) RootFolderName
        then Inl ErrDashboardFolderNameExists
      else if \<not> IsValidShortUID (pkg svc) (dash_UID dash) then Inl ErrDashboardInvalidUid
      else if IsShortUIDTooLong (pkg svc) (dash_UID dash) then Inl ErrDashboardUidTooLong
      else
        (case ValidateDashboardBeforeSave (dashboardStore svc) s dash (dto_Overwrite dto) of
           Inl err \<Rightarrow> Inl err
         | Inr dash' \<Rightarrow>
            (case getGuardianForSavePermissionCheck svc s dash' (dto_User dto) of
               Inl err \<Rightarrow> Inl err
             | Inr guard \<Rightarrow>
                (case (if dash_ID dash' = 0
                       then CanCreate guard (dash_FolderID dash') (dash_IsFolder dash')
                       else CanSave guard) of
                   Inl err \<Rightarrow> Inl err
                 | Inr allowed \<Rightarrow>
                    if \<not> allowed then Inl ErrDashboardUpdateAccessDenied
                    else
                      Inr \<lparr>sc_Dashboard = dash_Data dash',
                           sc_Message = dto_Message dto,
                           sc_OrgID = dto_OrgID dto,
                           sc_Overwrite = dto_Overwrite dto,
                           sc_UserID = userID_of svc (dto_User dto),
                           sc_FolderID = dash_FolderID dash',
                           sc_FolderUID = dash_FolderUID dash',
                           sc_IsFolder = dash_IsFolder dash',
                           sc_PluginID = dash_PluginID dash'\<rparr>))))"

subsection \<open>Create\<close>

definition validateParent :: "'s Service \<Rightarrow> 's \<Rightarrow> int \<Rightarrow> string \<Rightarrow> string \<Rightarrow> error option" where
  "validateParent svc s orgID parentUID uid =
     (case store_GetParents (store svc) s \<lparr>gp_UID = parentUID, gp_OrgID = orgID\<rparr> of
        Inl err \<Rightarrow> Some (ErrWrapped ''failed to get parents'' err)
      | Inr ancestors \<Rightarrow>
         if int (length ancestors) = MaxNestedFolderDepth
           then Some (ErrMaximumDepthReached ''failed to validate parent folder'')
         else if parentUID = uid then Some (ErrCircularReference [])
         else if \<exists>ancestor \<in> set ancestors. UID ancestor = uid then Some (ErrCircularReference [])
         else None)"

definition nestedFolderCreate ::
  "'s Service \<Rightarrow> CreateFolderCommand \<Rightarrow> 's \<Rightarrow> (error + Folder option) \<times> 's" where
  "nestedFolderCreate svc cmd s =
     (case (if c_ParentUID cmd \<noteq> []
            then validateParent svc s (c_OrgID cmd) (c_ParentUID cmd) (c_UID cmd)
            else None) of
        Some err \<Rightarrow> (Inl err, s)
      | None \<Rightarrow> store_Create (store svc) cmd s)"

text \<open>
  The legacy row that \<open>Create\<close> builds from the command, wrapped for the save path. The
  parent is set only in nested mode, after the access check on the parent has passed.
\<close>

definition Create_dto :: "'s Service \<Rightarrow> CreateFolderCommand \<Rightarrow> Requester \<Rightarrow> SaveDashboardDTO" where
  "Create_dto svc cmd user =
     (let dashFolder0 = (NewDashboardFolder (c_Title cmd))\<lparr>dash_OrgID := c_OrgID cmd\<rparr>;
          dashFolder1 = (if features svc \<and> c_ParentUID cmd \<noteq> []
                         then dashFolder0\<lparr>dash_FolderUID := c_ParentUID cmd\<rparr>
                         else dashFolder0);
          trimmedUID = TrimSpace (c_UID cmd);
          dashFolder2 = SetUID trimmedUID dashFolder1;
          userID0 = userID_of svc user;
          userID = (if userID0 = 0 then -1 else userID0);
          dashFolder = dashFolder2\<lparr>dash_CreatedBy := userID, dash_UpdatedBy := userID\<rparr>
      in \<lparr>dto_Dashboard = dashFolder, dto_OrgID = c_OrgID cmd, dto_User = user,
          dto_Overwrite = False, dto_Message = []\<rparr>)"

text \<open>
  \<open>Create\<close> returns a folder and an error: on the rollback path both are set, so the
  result is the pair of the two optional values.
\<close>

definition Create ::
  "'s Service \<Rightarrow> CreateFolderCommand \<Rightarrow> 's \<Rightarrow> (Folder option \<times> error option) \<times> 's" where
  "Create svc cmd s =
     (case c_SignedInUser cmd of
        None \<Rightarrow> ((None, Some (ErrBadRequest ''missing signed in user'')), s)
      | Some user \<Rightarrow>
        if IsNil user then ((None, Some (ErrBadRequest ''missing signed in user'')), s)
        else
         (case (if features svc \<and> c_ParentUID cmd \<noteq> []
                then (case accessControl svc s user
                             (EvalPermission ActionFoldersWrite
                                [GetResourceScopeUID (c_ParentUID cmd)]) of
                        Inl evalErr \<Rightarrow> Some evalErr
                      | Inr hasAccess \<Rightarrow>
                         if \<not> hasAccess then Some ErrFolderAccessDenied else None)
                else None) of
            Some err \<Rightarrow> ((None, Some err), s)
          | None \<Rightarrow>
             if TrimSpace (c_UID cmd) = GeneralFolderUID then ((None, Some ErrFolderInvalidUID), s)
             else
              (case buildSaveDashboardCommand svc s (Create_dto svc cmd user) of
                 Inl err \<Rightarrow> ((None, Some (toFolderError err)), s)
               | Inr saveDashboardCmd \<Rightarrow>
                 (case SaveDashboard (dashboardStore svc) saveDashboardCmd s of
                    (Inl err, s1) \<Rightarrow> ((None, Some (toFolderError err)), s1)
                  | (Inr dash, s1) \<Rightarrow>
                    (case GetFolderByID (dashboardFolderStore svc) s1 (c_OrgID cmd) (dash_ID dash) of
                       Inl err \<Rightarrow> ((None, Some err), s1)
                     | Inr createdFolder \<Rightarrow>
                       (let cmd' = \<lparr>c_UID = dash_UID dash, c_OrgID = c_OrgID cmd,
                                    c_Title = c_Title cmd, c_Description = c_Description cmd,
                                    c_ParentUID = c_ParentUID cmd, c_SignedInUser = None\<rparr>
                        in
                        case nestedFolderCreate svc cmd' s1 of
                          (Inl err, s2) \<Rightarrow>
                            (case DeleteDashboard (dashboardStore svc)
                                    \<lparr>dd_ID = ID createdFolder, dd_OrgID = OrgID createdFolder,
                                     dd_ForceDeleteFolderRules = False\<rparr> s2 of
                               (deleteErr, s3) \<Rightarrow> ((Some (FromDashboard dash), Some err), s3))
                        | (Inr nestedFolder, s2) \<Rightarrow>
                            (let f = FromDashboard dash in
                             ((Some (if nestedFolder \<noteq> None \<and> ParentUID (the nestedFolder) \<noteq> []
                                     then f\<lparr>ParentUID := ParentUID (the nestedFolder)\<rparr>
                                     else f), None), s2))))))))"

subsection \<open>Update\<close>

definition prepareForUpdate ::
  "Dashboard \<Rightarrow> int \<Rightarrow> int \<Rightarrow> UpdateFolderCommand \<Rightarrow> Dashboard" where
  "prepareForUpdate dashFolder orgId userId cmd =
     (let d1 = dashFolder\<lparr>dash_OrgID := orgId\<rparr>;
          title = (if u_NewTitle cmd \<noteq> None \<and> the (u_NewTitle cmd) \<noteq> []
                   then the (u_NewTitle cmd) else dash_Title d1);
          d2 = d1\<lparr>dash_Title := TrimSpace title\<rparr>;
          d3 = d2\<lparr>dash_Data := Json_Set ''title'' (JString (dash_Title d2)) (dash_Data d2)\<rparr>;
          d4 = (SetVersion (u_Version cmd) d3)\<lparr>dash_IsFolder := True\<rparr>;
          userId' = (if userId = 0 then -1 else userId)
      in d4\<lparr>dash_UpdatedBy := userId'\<rparr>)"

definition legacyUpdate ::
  "'s Service \<Rightarrow> UpdateFolderCommand \<Rightarrow> 's \<Rightarrow> (error + Folder) \<times> 's" where
  "legacyUpdate svc cmd s =
     (let query = \<lparr>gd_OrgID = u_OrgID cmd, gd_UID = u_UID cmd\<rparr> in
      case GetDashboard (dashboardStore svc) s query of
        Inl err \<Rightarrow> (Inl (toFolderError err), s)
      | Inr queryResult \<Rightarrow>
        (let dashFolder0 = (if u_NewParentUID cmd \<noteq> None
                            then queryResult\<lparr>dash_FolderUID := the (u_NewParentUID cmd)\<rparr>
                            else queryResult);
             currentTitle = dash_Title dashFolder0
         in
         if \<not> dash_IsFolder dashFolder0 then (Inl dashboards_ErrFolderNotFound, s)
         else
          (case u_SignedInUser cmd of
             None \<Rightarrow> (Inl (ErrBadRequest ''missing signed in user''), s)
           | Some user \<Rightarrow>
             (let userID = (if NamespaceID user = NamespaceUser
                               \<or> NamespaceID user = NamespaceServiceAccount
                            then fst (IntIdentifier (pkg svc) (NamespaceID user) (NamespacedUserID user))
                            else 0);
                  dashFolder = prepareForUpdate dashFolder0 (u_OrgID cmd) userID cmd;
                  dto = \<lparr>dto_Dashboard = dashFolder, dto_OrgID = u_OrgID cmd, dto_User = user,
                         dto_Overwrite = u_Overwrite cmd, dto_Message = []\<rparr>
              in
              case buildSaveDashboardCommand svc s dto of
                Inl err \<Rightarrow> (Inl (toFolderError err), s)
              | Inr saveDashboardCmd \<Rightarrow>
                (case SaveDashboard (dashboardStore svc) saveDashboardCmd s of
                   (Inl err, s1) \<Rightarrow> (Inl (toFolderError err), s1)
                 | (Inr dash, s1) \<Rightarrow>
                   (case GetFolderByID (dashboardFolderStore svc) s1 (u_OrgID cmd) (dash_ID dash) of
                      Inl err \<Rightarrow> (Inl err, s1)
                    | Inr foldr' \<Rightarrow>
                       if currentTitle \<noteq> Title foldr'
                       then (Inr foldr',
                             snd (bus svc \<lparr>ev_Title = Title foldr', ev_ID = dash_ID dash,
                                           ev_UID = dash_UID dash, ev_OrgID = u_OrgID cmd\<rparr> s1))
                       else (Inr foldr', s1)))))))"

definition Update ::
  "'s Service \<Rightarrow> UpdateFolderCommand \<Rightarrow> 's \<Rightarrow> (error + Folder) \<times> 's" where
  "Update svc cmd s =
     (case u_SignedInUser cmd of
        None \<Rightarrow> (Inl (ErrBadRequest ''missing signed in user''), s)
      | Some user \<Rightarrow>
        (case legacyUpdate svc cmd s of
           (Inl err, s1) \<Rightarrow> (Inl err, s1)
         | (Inr dashFolder, s1) \<Rightarrow>
           (case store_Update (store svc)
                   \<lparr>u_UID = u_UID cmd, u_OrgID = u_OrgID cmd, u_NewTitle = u_NewTitle cmd,
                    u_NewDescription = u_NewDescription cmd, u_NewParentUID = None,
                    u_Version = 0, u_Overwrite = False, u_SignedInUser = Some user\<rparr> s1 of
              (Inl err, s2) \<Rightarrow>
                if errors_Is err (folder_ErrFolderNotFound []) then (Inr dashFolder, s2)
                else (Inl err, s2)
            | (Inr foldr', s2) \<Rightarrow>
                (Inr (foldr'\<lparr>ID := ID dashFolder, Version := Version dashFolder\<rparr>), s2))))"

subsection \<open>Delete\<close>

fun deleteChildrenInFolder_loop ::
  "(string \<times> (int \<Rightarrow> string \<Rightarrow> Requester \<Rightarrow> 's \<Rightarrow> error option \<times> 's)) list
     \<Rightarrow> int \<Rightarrow> string \<Rightarrow> Requester \<Rightarrow> 's \<Rightarrow> error option \<times> 's" where
  "deleteChildrenInFolder_loop [] orgID folderUID user s = (None, s)"
| "deleteChildrenInFolder_loop (v # vs) orgID folderUID user s =
     (case snd v orgID folderUID user s of
        (Some err, s1) \<Rightarrow> (Some err, s1)
      | (None, s1) \<Rightarrow> deleteChildrenInFolder_loop vs orgID folderUID user s1)"

definition deleteChildrenInFolder ::
  "'s Service \<Rightarrow> int \<Rightarrow> string \<Rightarrow> Requester \<Rightarrow> 's \<Rightarrow> error option \<times> 's" where
  "deleteChildrenInFolder svc orgID folderUID user s =
     deleteChildrenInFolder_loop (registry svc) orgID folderUID user s"

definition legacyDelete ::
  "'s Service \<Rightarrow> DeleteFolderCommand \<Rightarrow> Folder \<Rightarrow> 's \<Rightarrow> error option \<times> 's" where
  "legacyDelete svc cmd dashFolder s =
     (let deleteCmd = \<lparr>dd_ID = ID dashFolder, dd_OrgID = d_OrgID cmd,
                       dd_ForceDeleteFolderRules = d_ForceDeleteRules cmd\<rparr> in
      case DeleteDashboard (dashboardStore svc) deleteCmd s of
        (Some err, s1) \<Rightarrow> (Some (toFolderError err), s1)
      | (None, s1) \<Rightarrow> (None, s1))"

text \<open>
  \<open>nestedFolderDelete\<close> calls itself for every child the store lists, and nothing in
  the service bounds the descent: the first argument is the number of nested calls
  allowed, and \<open>None\<close> says that the bound was reached. The result is the pair the Go
  function returns: the collected UIDs and the error.
\<close>

fun nestedFolderDelete ::
  "nat \<Rightarrow> 's Service \<Rightarrow> DeleteFolderCommand \<Rightarrow> 's \<Rightarrow> ((string list \<times> error option) \<times> 's) option"
and nestedFolderDelete_loop ::
  "nat \<Rightarrow> 's Service \<Rightarrow> DeleteFolderCommand \<Rightarrow> Folder list \<Rightarrow> string list \<Rightarrow> 's
     \<Rightarrow> ((string list \<times> error option) \<times> 's) option" where
  "nestedFolderDelete 0 svc cmd s = None"
| "nestedFolderDelete (Suc n) svc cmd s =
     (case d_SignedInUser cmd of
        None \<Rightarrow> Some (([], Some (ErrBadRequest ''missing signed in user'')), s)
      | Some user \<Rightarrow>
        (case Get svc \<lparr>q_UID = Some (d_UID cmd), q_ID = None, q_Title = None,
                       q_OrgID = d_OrgID cmd, q_SignedInUser = Some user\<rparr> s of
           Inl err \<Rightarrow> Some (([], Some err), s)
         | Inr _ \<Rightarrow>
           (case store_GetChildren (store svc) s
                   \<lparr>gc_UID = d_UID cmd, gc_OrgID = d_OrgID cmd, gc_SignedInUser = None\<rparr> of
              Inl err \<Rightarrow> Some (([], Some err), s)
            | Inr folders \<Rightarrow>
              (case nestedFolderDelete_loop n svc cmd folders [] s of
                 None \<Rightarrow> None
               | Some ((result, Some err), s1) \<Rightarrow> Some ((result, Some err), s1)
               | Some ((result, None), s1) \<Rightarrow>
                  (case store_Delete (store svc) (d_UID cmd) (d_OrgID cmd) s1 of
                     (Some err, s2) \<Rightarrow> Some ((result, Some err), s2)
                   | (None, s2) \<Rightarrow> Some ((result, None), s2))))))"
| "nestedFolderDelete_loop n svc cmd [] result s = Some ((result, None), s)"
| "nestedFolderDelete_loop n svc cmd (f # fs) result s =
     (let result1 = result @ [UID f] in
      case nestedFolderDelete n svc
             \<lparr>d_UID = UID f, d_OrgID = OrgID f, d_ForceDeleteRules = d_ForceDeleteRules cmd,
              d_SignedInUser = d_SignedInUser cmd\<rparr> s of
        None \<Rightarrow> None
      | Some ((subfolders, Some err), s1) \<Rightarrow> Some ((result1, Some err), s1)
      | Some ((subfolders, None), s1) \<Rightarrow>
          nestedFolderDelete_loop n svc cmd fs (result1 @ subfolders) s1)"

text \<open>
  The loop of \<open>Delete\<close> over the collected UIDs. A UID that the batch lookup did not
  return ends the loop with \<open>return err\<close>, where \<open>err\<close> is nil at that point.
\<close>

fun Delete_loop ::
  "'s Service \<Rightarrow> DeleteFolderCommand \<Rightarrow> Requester \<Rightarrow> (string \<rightharpoonup> Folder) \<Rightarrow> string list \<Rightarrow> 's
     \<Rightarrow> error option \<times> 's" where
  "Delete_loop svc cmd user dashFolders [] s = (None, s)"
| "Delete_loop svc cmd user dashFolders (folder # rest) s =
     (case dashFolders folder of
        None \<Rightarrow> (None, s)
      | Some dashFolder \<Rightarrow>
        (case (if d_ForceDeleteRules cmd
               then deleteChildrenInFolder svc (OrgID dashFolder) (UID dashFolder) user s
               else (None, s)) of
           (Some err, s1) \<Rightarrow> (Some err, s1)
         | (None, s1) \<Rightarrow>
           (case legacyDelete svc cmd dashFolder s1 of
              (Some err, s2) \<Rightarrow> (Some err, s2)
            | (None, s2) \<Rightarrow> Delete_loop svc cmd user dashFolders rest s2)))"

text \<open>The function passed to \<open>InTransaction\<close> by \<open>Delete\<close>.\<close>

definition Delete_body ::
  "nat \<Rightarrow> 's Service \<Rightarrow> DeleteFolderCommand \<Rightarrow> Requester \<Rightarrow> 's \<Rightarrow> ((error + unit) \<times> 's) option" where
  "Delete_body n svc cmd user s =
     (case nestedFolderDelete n svc cmd s of
        None \<Rightarrow> None
      | Some ((subfolders, Some err), s1) \<Rightarrow> Some (Inl err, s1)
      | Some ((subfolders, None), s1) \<Rightarrow>
         (let result = [d_UID cmd] @ subfolders in
          case GetFolders (dashboardFolderStore svc) s1 (d_OrgID cmd) result of
            Inl err \<Rightarrow>
              Some (Inl (ErrInternal ''failed to fetch subfolders from dashboard store'' err), s1)
          | Inr dashFolders \<Rightarrow>
             (case Delete_loop svc cmd user dashFolders result s1 of
                (Some err, s2) \<Rightarrow> Some (Inl err, s2)
              | (None, s2) \<Rightarrow> Some (Inr (), s2))))"

definition Delete ::
  "nat \<Rightarrow> 's Service \<Rightarrow> DeleteFolderCommand \<Rightarrow> 's \<Rightarrow> (error option \<times> 's) option" where
  "Delete n svc cmd s =
     (case d_SignedInUser cmd of
        None \<Rightarrow> Some (Some (ErrBadRequest ''missing signed in user''), s)
      | Some user \<Rightarrow>
        if d_UID cmd = [] then Some (Some (ErrBadRequest ''missing UID''), s)
        else if d_OrgID cmd < 1 then Some (Some (ErrBadRequest ''invalid orgID''), s)
        else
         (case guardian_NewByUID (pkg svc) s (d_UID cmd) (d_OrgID cmd) user of
            Inl err \<Rightarrow> Some (Some err, s)
          | Inr guard \<Rightarrow>
            (case CanDelete guard of
               Inl err \<Rightarrow> Some (Some (toFolderError err), s)
             | Inr canSave \<Rightarrow>
                if \<not> canSave then Some (Some ErrFolderAccessDenied, s)
                else
                 (case Delete_body n svc cmd user s of
                    None \<Rightarrow> None
                  | Some outcome \<Rightarrow>
                     (case InTransaction (\<lambda>_. outcome) s of
                        (Inl err, s') \<Rightarrow> Some (Some err, s')
                      | (Inr _, s') \<Rightarrow> Some (None, s'))))))"

subsection \<open>Move\<close>

text \<open>The function passed to \<open>InTransaction\<close> by \<open>Move\<close>; its value is the variable \<open>f\<close>.\<close>

definition Move_body ::
  "'s Service \<Rightarrow> MoveFolderCommand \<Rightarrow> string \<Rightarrow> 's \<Rightarrow> (error + Folder) \<times> 's" where
  "Move_body svc cmd newParentUID s =
     (case store_Update (store svc)
             \<lparr>u_UID = m_UID cmd, u_OrgID = m_OrgID cmd, u_NewTitle = None,
              u_NewDescription = None, u_NewParentUID = Some newParentUID,
              u_Version = 0, u_Overwrite = False, u_SignedInUser = m_SignedInUser cmd\<rparr> s of
        (Inl err, s1) \<Rightarrow> (Inl (ErrInternal ''failed to move folder'' err), s1)
      | (Inr f, s1) \<Rightarrow>
         (case legacyUpdate svc
                 \<lparr>u_UID = m_UID cmd, u_OrgID = m_OrgID cmd, u_NewTitle = None,
                  u_NewDescription = None, u_NewParentUID = Some newParentUID,
                  u_Version = 0, u_Overwrite = True, u_SignedInUser = m_SignedInUser cmd\<rparr> s1 of
            (Inl err, s2) \<Rightarrow> (Inl (ErrInternal ''failed to move legacy folder'' err), s2)
          | (Inr _, s2) \<Rightarrow> (Inr f, s2)))"

definition Move ::
  "'s Service \<Rightarrow> MoveFolderCommand \<Rightarrow> 's \<Rightarrow> (error + Folder) \<times> 's" where
  "Move svc cmd s =
     (case m_SignedInUser cmd of
        None \<Rightarrow> (Inl (ErrBadRequest ''missing signed in user''), s)
      | Some user \<Rightarrow>
        (let evaluator =
               (if m_NewParentUID cmd \<noteq> []
                then EvalPermission ActionFoldersWrite [GetResourceScopeUID (m_NewParentUID cmd)]
                else EvalPermission ActionFoldersCreate [])
         in
         case accessControl svc s user evaluator of
           Inl evalErr \<Rightarrow> (Inl evalErr, s)
         | Inr hasAccess \<Rightarrow>
           if \<not> hasAccess then (Inl ErrFolderAccessDenied, s)
           else
            (case store_GetHeight (store svc) s (m_UID cmd) (m_OrgID cmd)
                    (Some (m_NewParentUID cmd)) of
               Inl err \<Rightarrow> (Inl err, s)
             | Inr folderHeight \<Rightarrow>
               (case store_GetParents (store svc) s
                       \<lparr>gp_UID = m_NewParentUID cmd, gp_OrgID = m_OrgID cmd\<rparr> of
                  Inl err \<Rightarrow> (Inl err, s)
                | Inr parents \<Rightarrow>
                   if sint (folderHeight + word_of_nat (length parents) + 2) > MaxNestedFolderDepth
                     then (Inl (ErrMaximumDepthReached ''failed to move folder''), s)
                   else if \<exists>parent \<in> set parents. UID parent = m_UID cmd
                     then (Inl (ErrCircularReference ''failed to move folder''), s)
                   else
                    (let newParentUID = (if m_NewParentUID cmd \<noteq> [] then m_NewParentUID cmd else [])
                     in InTransaction (Move_body svc cmd newParentUID) s)))))"

section \<open>The two stores as tables\<close>

text \<open>
  Modelled from the spec: the implementations of the three store interfaces, of the
  access evaluator and of the guardians are not among the sources. The spec gives the
  legacy flat store as rows of a dashboard-like table keyed by org and UID with a
  sequential numeric id and a version, and the nested tree store as folder rows keyed
  by org and UID with a parent-UID pointer, with ancestor, children and height
  queries. The database is the two tables; the decisions of the access evaluator, the
  generator of UIDs and the registered handlers are parameters. So is the height
  query of the nested store: \<open>Move\<close> hands it the UID of the destination with the
  folder, and the spec says of it only that it computes a height, so its answer on
  the rows of the nested table is left open.
\<close>

record Database =
  legacy :: "Dashboard list"
  nested :: "Folder list"

record Collaborators =
  col_Evaluate :: "Requester \<Rightarrow> Evaluator \<Rightarrow> error + bool"
  col_guardianByUID :: "string \<Rightarrow> int \<Rightarrow> Requester \<Rightarrow> error + DashboardGuardian"
  col_guardianByID :: "int \<Rightarrow> int \<Rightarrow> Requester \<Rightarrow> error + DashboardGuardian"
  col_GenerateShortUID :: "int \<Rightarrow> string"
  col_registry :: "(string \<times> (int \<Rightarrow> string \<Rightarrow> Requester \<Rightarrow> error option)) list"
  col_GetHeight :: "Folder list \<Rightarrow> string \<Rightarrow> int \<Rightarrow> string option \<Rightarrow> error + 64 word"

subsection \<open>The legacy flat store\<close>

text \<open>
  Modelled from the spec: the lookups and the delete of the legacy flat store
  (\<open>GetByUID/GetByID/GetByTitle\<close>, batch \<open>GetMany(uids) -> map[uid]row\<close>, \<open>Delete(id)\<close>),
  whose implementation is not among the sources. A lookup answers with the first
  folder row of the org that matches, or with folder-not-found; the batch lookup maps
  each of the given UIDs that has a folder row to it; the delete removes the rows with
  the id in the org, or reports that there is none.
\<close>

definition folder_row :: "int \<Rightarrow> string \<Rightarrow> Dashboard \<Rightarrow> bool" where
  "folder_row orgID uid d = (dash_IsFolder d \<and> dash_OrgID d = orgID \<and> dash_UID d = uid)"

definition legacy_GetFolderByUID :: "Database \<Rightarrow> int \<Rightarrow> string \<Rightarrow> error + Folder" where
  "legacy_GetFolderByUID s orgID uid =
     (case find (folder_row orgID uid) (legacy s) of
        None \<Rightarrow> Inl dashboards_ErrFolderNotFound
      | Some d \<Rightarrow> Inr (FromDashboard d))"

definition legacy_GetFolderByID :: "Database \<Rightarrow> int \<Rightarrow> int \<Rightarrow> error + Folder" where
  "legacy_GetFolderByID s orgID fid =
     (case find (\<lambda>d. dash_IsFolder d \<and> dash_OrgID d = orgID \<and> dash_ID d = fid) (legacy s) of
        None \<Rightarrow> Inl dashboards_ErrFolderNotFound
      | Some d \<Rightarrow> Inr (FromDashboard d))"

definition legacy_GetFolderByTitle :: "Database \<Rightarrow> int \<Rightarrow> string \<Rightarrow> error + Folder" where
  "legacy_GetFolderByTitle s orgID title =
     (case find (\<lambda>d. dash_IsFolder d \<and> dash_OrgID d = orgID \<and> dash_Title d = title) (legacy s) of
        None \<Rightarrow> Inl dashboards_ErrFolderNotFound
      | Some d \<Rightarrow> Inr (FromDashboard d))"

definition legacy_GetFolders ::
  "Database \<Rightarrow> int \<Rightarrow> string list \<Rightarrow> error + (string \<rightharpoonup> Folder)" where
  "legacy_GetFolders s orgID uids =
     Inr (\<lambda>uid. if uid \<in> set uids
                then map_option FromDashboard (find (folder_row orgID uid) (legacy s))
                else None)"

definition legacy_GetDashboard :: "Database \<Rightarrow> GetDashboardQuery \<Rightarrow> error + Dashboard" where
  "legacy_GetDashboard s q =
     (case find (\<lambda>d. dash_OrgID d = gd_OrgID q \<and> dash_UID d = gd_UID q) (legacy s) of
        None \<Rightarrow> Inl ErrDashboardNotFound
      | Some d \<Rightarrow> Inr (d\<lparr>dash_Data := Json_Set ''id'' (JInt (dash_ID d)) (dash_Data d)\<rparr>))"

definition legacy_DeleteDashboard ::
  "DeleteDashboardCommand \<Rightarrow> Database \<Rightarrow> error option \<times> Database" where
  "legacy_DeleteDashboard cmd s =
     (if \<exists>d \<in> set (legacy s). dash_ID d = dd_ID cmd \<and> dash_OrgID d = dd_OrgID cmd
      then (None, s\<lparr>legacy := filter (\<lambda>d. \<not> (dash_ID d = dd_ID cmd \<and> dash_OrgID d = dd_OrgID cmd))
                                      (legacy s)\<rparr>)
      else (Some ErrDashboardNotFound, s))"

text \<open>
  Modelled from the spec: the validation of the generic save path, which is not among
  the sources. A row with an id must exist; a new row must not reuse a
  UID of the org unless the save overwrites; the version must match unless the save
  overwrites; no other row of the same org and parent carries the title.
\<close>

definition legacy_ValidateDashboardBeforeSave ::
  "Database \<Rightarrow> Dashboard \<Rightarrow> bool \<Rightarrow> error + Dashboard" where
  "legacy_ValidateDashboardBeforeSave s dash overwrite =
     (let existing =
            (if dash_ID dash \<noteq> 0
             then find (\<lambda>d. dash_ID d = dash_ID dash \<and> dash_OrgID d = dash_OrgID dash) (legacy s)
             else if dash_UID dash \<noteq> []
             then find (\<lambda>d. dash_OrgID d = dash_OrgID dash \<and> dash_UID d = dash_UID dash) (legacy s)
             else None)
      in
      if dash_ID dash \<noteq> 0 \<and> existing = None then Inl ErrDashboardNotFound
      else if dash_ID dash = 0 \<and> existing \<noteq> None \<and> \<not> overwrite then Inl ErrDashboardWithSameUIDExists
      else if existing \<noteq> None \<and> \<not> overwrite \<and> dash_Version (the existing) \<noteq> dash_Version dash
        then Inl ErrDashboardVersionMismatch
      else
        (let dash' = (case existing of
                        None \<Rightarrow> dash
                      | Some e \<Rightarrow> dash\<lparr>dash_ID := dash_ID e, dash_Version := dash_Version e\<rparr>)
         in
         if \<exists>d \<in> set (legacy s). dash_OrgID d = dash_OrgID dash' \<and> dash_ID d \<noteq> dash_ID dash'
               \<and> dash_FolderUID d = dash_FolderUID dash' \<and> dash_FolderID d = dash_FolderID dash'
               \<and> dash_Title d = dash_Title dash'
         then Inl ErrDashboardWithSameNameInFolderExists
         else Inr dash'))"

fun Json_String :: "string \<Rightarrow> Json \<Rightarrow> string" where
  "Json_String k [] = []"
| "Json_String k ((k', v) # d) =
     (if k' = k then (case v of JString x \<Rightarrow> x | JInt _ \<Rightarrow> []) else Json_String k d)"

fun Json_Int :: "string \<Rightarrow> Json \<Rightarrow> int" where
  "Json_Int k [] = 0"
| "Json_Int k ((k', v) # d) =
     (if k' = k then (case v of JInt x \<Rightarrow> x | JString _ \<Rightarrow> 0) else Json_Int k d)"

definition fresh_ID :: "Dashboard list \<Rightarrow> int" where
  "fresh_ID rows = 1 + fold max (map dash_ID rows) 0"

text \<open>
  Modelled from the spec: \<open>Save(row) -> row\<close> of the legacy flat store, which is not
  among the sources. A save updates the row the body names by id, or by org and UID,
  and bumps its version; otherwise it inserts a row with the next sequential id,
  generating a UID when the body has none.
\<close>

definition legacy_SaveDashboard ::
  "Collaborators \<Rightarrow> SaveDashboardCommand \<Rightarrow> Database \<Rightarrow> (error + Dashboard) \<times> Database" where
  "legacy_SaveDashboard col cmd s =
     (let body = sc_Dashboard cmd;
          rid = Json_Int ''id'' body;
          uid = Json_String ''uid'' body;
          hit = (\<lambda>d. if rid \<noteq> 0 then dash_ID d = rid \<and> dash_OrgID d = sc_OrgID cmd
                     else uid \<noteq> [] \<and> dash_OrgID d = sc_OrgID cmd \<and> dash_UID d = uid)
      in
      case find hit (legacy s) of
        Some old \<Rightarrow>
          if \<not> sc_Overwrite cmd \<and> dash_Version old \<noteq> Json_Int ''version'' body
          then (Inl ErrDashboardVersionMismatch, s)
          else
            (let new = old\<lparr>dash_Title := Json_String ''title'' body,
                           dash_Version := dash_Version old + 1,
                           dash_FolderID := sc_FolderID cmd,
                           dash_FolderUID := sc_FolderUID cmd,
                           dash_IsFolder := sc_IsFolder cmd,
                           dash_UpdatedBy := sc_UserID cmd,
                           dash_PluginID := sc_PluginID cmd,
                           dash_Data := Json_Set ''version'' (JInt (dash_Version old + 1)) body\<rparr>
             in (Inr new, s\<lparr>legacy := map (\<lambda>d. if hit d then new else d) (legacy s)\<rparr>))
      | None \<Rightarrow>
          if rid \<noteq> 0 then (Inl ErrDashboardNotFound, s)
          else
            (let nid = fresh_ID (legacy s);
                 nuid = (if uid = [] then col_GenerateShortUID col nid else uid);
                 new = \<lparr>dash_ID = nid, dash_UID = nuid, dash_OrgID = sc_OrgID cmd,
                        dash_Title = Json_String ''title'' body, dash_Version = 1,
                        dash_FolderID = sc_FolderID cmd, dash_FolderUID = sc_FolderUID cmd,
                        dash_IsFolder = sc_IsFolder cmd, dash_CreatedBy = sc_UserID cmd,
                        dash_UpdatedBy = sc_UserID cmd, dash_PluginID = sc_PluginID cmd,
                        dash_Data = Json_Set ''version'' (JInt 1)
                                      (Json_Set ''uid'' (JString nuid) body)\<rparr>
             in (Inr new, s\<lparr>legacy := legacy s @ [new]\<rparr>)))"

subsection \<open>The nested tree store\<close>

text \<open>
  Modelled from the spec: \<open>Get\<close>, \<open>GetChildren\<close>, \<open>Create\<close> and \<open>Delete\<close> of the nested tree
  store, whose implementation is not among the sources. \<open>Get\<close> answers with the first
  row that matches the selector of the query (UID, else id, else title), or with
  folder-not-found; the children of a folder are the rows of the org whose parent
  pointer is its UID, the empty UID standing for the root level; \<open>Create\<close> appends a row
  for a new key; \<open>Delete\<close> removes the rows with the key.
\<close>

definition folder_key :: "int \<Rightarrow> string \<Rightarrow> Folder \<Rightarrow> bool" where
  "folder_key orgID uid f = (OrgID f = orgID \<and> UID f = uid)"

definition nested_Get :: "Database \<Rightarrow> GetFolderQuery \<Rightarrow> error + Folder" where
  "nested_Get s q =
     (case (if q_UID q \<noteq> None then find (folder_key (q_OrgID q) (the (q_UID q))) (nested s)
            else if q_ID q \<noteq> None then find (\<lambda>f. ID f = the (q_ID q)) (nested s)
            else if q_Title q \<noteq> None
              then find (\<lambda>f. OrgID f = q_OrgID q \<and> Title f = the (q_Title q)) (nested s)
            else None) of
        None \<Rightarrow> Inl (folder_ErrFolderNotFound ''folder not found'')
      | Some f \<Rightarrow> Inr f)"

definition children :: "Folder list \<Rightarrow> int \<Rightarrow> string \<Rightarrow> Folder list" where
  "children rows orgID uid = filter (\<lambda>f. OrgID f = orgID \<and> ParentUID f = uid) rows"

definition nested_GetChildren :: "Database \<Rightarrow> GetChildrenQuery \<Rightarrow> error + Folder list" where
  "nested_GetChildren s q = Inr (children (nested s) (gc_OrgID q) (gc_UID q))"

text \<open>
  Modelled from the spec: \<open>GetParents\<close> of the nested tree store, which is not among the
  sources. \<open>ancestors\<close> are the ancestors of a folder, nearest first, following the
  parent pointer for at most as many steps as the first argument says; \<open>GetParents\<close>
  returns them root first, without the folder itself, and nothing for the root level.
\<close>

fun ancestors :: "nat \<Rightarrow> Folder list \<Rightarrow> int \<Rightarrow> string \<Rightarrow> Folder list" where
  "ancestors 0 rows orgID parentUID = []"
| "ancestors (Suc n) rows orgID parentUID =
     (if parentUID = [] then []
      else (case find (folder_key orgID parentUID) rows of
              None \<Rightarrow> []
            | Some p \<Rightarrow> p # ancestors n rows orgID (ParentUID p)))"

definition nested_GetParents :: "Database \<Rightarrow> GetParentsQuery \<Rightarrow> error + Folder list" where
  "nested_GetParents s q =
     (if gp_UID q = [] then Inr []
      else (case find (folder_key (gp_OrgID q) (gp_UID q)) (nested s) of
              None \<Rightarrow> Inl (folder_ErrFolderNotFound ''folder not found'')
            | Some f \<Rightarrow>
                Inr (rev (ancestors (length (nested s)) (nested s) (gp_OrgID q) (ParentUID f)))))"

definition nested_Create ::
  "CreateFolderCommand \<Rightarrow> Database \<Rightarrow> (error + Folder option) \<times> Database" where
  "nested_Create cmd s =
     (if c_UID cmd = [] then (Inl (ErrBadRequest ''missing UID''), s)
      else if find (folder_key (c_OrgID cmd) (c_UID cmd)) (nested s) \<noteq> None
        then (Inl (ErrOther ''folder row exists''), s)
      else
        (let f = \<lparr>ID = 1 + fold max (map ID (nested s)) 0, OrgID = c_OrgID cmd, UID = c_UID cmd,
                  ParentUID = c_ParentUID cmd, Title = c_Title cmd,
                  Description = c_Description cmd, Version = 0\<rparr>
         in (Inr (Some f), s\<lparr>nested := nested s @ [f]\<rparr>)))"

text \<open>
  Modelled from the spec: \<open>Update\<close> of the nested tree store, which is not among the
  sources. An update writes only the columns the command names, and answers with
  folder-not-found when the row does not exist.
\<close>

definition nested_Update ::
  "UpdateFolderCommand \<Rightarrow> Database \<Rightarrow> (error + Folder) \<times> Database" where
  "nested_Update cmd s =
     (case find (folder_key (u_OrgID cmd) (u_UID cmd)) (nested s) of
        None \<Rightarrow> (Inl (folder_ErrFolderNotFound ''folder not found''), s)
      | Some old \<Rightarrow>
         (let upd = (\<lambda>f.
                f\<lparr>Title := (case u_NewTitle cmd of None \<Rightarrow> Title f | Some t \<Rightarrow> t),
                  Description := (case u_NewDescription cmd of None \<Rightarrow> Description f | Some d \<Rightarrow> d),
                  ParentUID := (case u_NewParentUID cmd of None \<Rightarrow> ParentUID f | Some p \<Rightarrow> p)\<rparr>)
          in (Inr (upd old),
              s\<lparr>nested := map (\<lambda>f. if folder_key (u_OrgID cmd) (u_UID cmd) f then upd f else f)
                             (nested s)\<rparr>)))"

definition nested_Delete :: "string \<Rightarrow> int \<Rightarrow> Database \<Rightarrow> error option \<times> Database" where
  "nested_Delete uid orgID s =
     (None, s\<lparr>nested := filter (\<lambda>f. \<not> folder_key orgID uid f) (nested s)\<rparr>)"

subsection \<open>The service over the two tables\<close>

text \<open>
  Modelled from the spec: the helpers of \<open>identity\<close> and \<open>util\<close>, which are not among the
  sources. \<open>identity.IntIdentifier\<close> reads a decimal number; \<open>util.IsValidShortUID\<close> accepts
  letters, digits, \<open>-\<close> and \<open>_\<close>; \<open>util.IsShortUIDTooLong\<close> rejects more than 40
  characters.
\<close>

definition digit_val :: "char \<Rightarrow> nat option" where
  "digit_val c = (let n = (of_char c :: nat) in if 48 \<le> n \<and> n \<le> 57 then Some (n - 48) else None)"

fun parse_nat :: "nat \<Rightarrow> string \<Rightarrow> nat option" where
  "parse_nat acc [] = Some acc"
| "parse_nat acc (c # cs) =
     (case digit_val c of None \<Rightarrow> None | Some v \<Rightarrow> parse_nat (10 * acc + v) cs)"

definition spec_IntIdentifier :: "string \<Rightarrow> string \<Rightarrow> int \<times> error option" where
  "spec_IntIdentifier namespaceID ident =
     (if ident = [] then (0, Some (ErrOther ''invalid identifier''))
      else (case parse_nat 0 ident of
              None \<Rightarrow> (0, Some (ErrOther ''invalid identifier''))
            | Some n \<Rightarrow> (int n, None)))"

definition uid_char :: "char \<Rightarrow> bool" where
  "uid_char c =
     (let n = (of_char c :: nat) in
      (48 \<le> n \<and> n \<le> 57) \<or> (65 \<le> n \<and> n \<le> 90) \<or> (97 \<le> n \<and> n \<le> 122) \<or> n = 45 \<or> n = 95)"

definition spec_store :: "Collaborators \<Rightarrow> Database NestedStore" where
  "spec_store col =
     \<lparr>store_Get = nested_Get, store_GetChildren = nested_GetChildren,
      store_GetParents = nested_GetParents,
      store_GetHeight = (\<lambda>s. col_GetHeight col (nested s)),
      store_Create = nested_Create, store_Update = nested_Update,
      store_Delete = nested_Delete\<rparr>"

definition spec_dashboardStore :: "Collaborators \<Rightarrow> Database DashboardStore" where
  "spec_dashboardStore col =
     \<lparr>SaveDashboard = legacy_SaveDashboard col, DeleteDashboard = legacy_DeleteDashboard,
      GetDashboard = legacy_GetDashboard,
      ValidateDashboardBeforeSave = legacy_ValidateDashboardBeforeSave\<rparr>"

definition spec_dashboardFolderStore :: "Database FolderStore" where
  "spec_dashboardFolderStore =
     \<lparr>GetFolderByUID = legacy_GetFolderByUID, GetFolderByID = legacy_GetFolderByID,
      GetFolderByTitle = legacy_GetFolderByTitle, GetFolders = legacy_GetFolders\<rparr>"

definition spec_pkg :: "Collaborators \<Rightarrow> Database Packages" where
  "spec_pkg col =
     \<lparr>guardian_New = (\<lambda>s folderID orgID user. col_guardianByID col folderID orgID user),
      guardian_NewByUID = (\<lambda>s uid orgID user. col_guardianByUID col uid orgID user),
      guardian_NewByFolder = (\<lambda>s f orgID user. col_guardianByUID col (UID f) orgID user),
      guardian_NewByDashboard = (\<lambda>s d orgID user. col_guardianByUID col (dash_UID d) orgID user),
      IntIdentifier = spec_IntIdentifier,
      IsValidShortUID = list_all uid_char,
      IsShortUIDTooLong = (\<lambda>uid. length uid > 40)\<rparr>"

definition spec_service :: "Collaborators \<Rightarrow> bool \<Rightarrow> Database Service" where
  "spec_service col nestedFolders =
     \<lparr>store = spec_store col,
      dashboardStore = spec_dashboardStore col,
      dashboardFolderStore = spec_dashboardFolderStore,
      features = nestedFolders,
      accessControl = (\<lambda>s user ev. col_Evaluate col user ev),
      bus = (\<lambda>ev s. (None, s)),
      registry = map (\<lambda>(kind, h). (kind, (\<lambda>orgID uid user s. (h orgID uid user, s)))) (col_registry col),
      pkg = spec_pkg col\<rparr>"

section \<open>The folder tree and example data\<close>

text \<open>
  \<open>descendant rows orgID a u\<close>: in the nested table, the folder \<open>u\<close> of the org lies
  below the folder \<open>a\<close>, one or more parent pointers away. The empty UID marks the root
  level and is not a folder.
\<close>

inductive descendant :: "Folder list \<Rightarrow> int \<Rightarrow> string \<Rightarrow> string \<Rightarrow> bool"
  for rows :: "Folder list" and orgID :: int and a :: string where
  child: "r \<in> set rows \<Longrightarrow> OrgID r = orgID \<Longrightarrow> ParentUID r = a \<Longrightarrow> a \<noteq> []
            \<Longrightarrow> descendant rows orgID a (UID r)"
| below: "descendant rows orgID a p \<Longrightarrow> r \<in> set rows \<Longrightarrow> OrgID r = orgID \<Longrightarrow> ParentUID r = p
            \<Longrightarrow> p \<noteq> [] \<Longrightarrow> descendant rows orgID a (UID r)"

text \<open>The key of a row in either table is its org and UID.\<close>

definition legacy_keys :: "Database \<Rightarrow> (int \<times> string) list" where
  "legacy_keys s = map (\<lambda>d. (dash_OrgID d, dash_UID d)) (legacy s)"

definition nested_keys :: "Database \<Rightarrow> (int \<times> string) list" where
  "nested_keys s = map (\<lambda>f. (OrgID f, UID f)) (nested s)"

text \<open>
  \<open>is_path rows orgID xs a\<close>: the rows \<open>xs\<close> of the org form a chain of parent pointers,
  each row the child of the next, the last one a child of the folder \<open>a\<close>.
\<close>

fun is_path :: "Folder list \<Rightarrow> int \<Rightarrow> Folder list \<Rightarrow> string \<Rightarrow> bool" where
  "is_path rows orgID [] a = False"
| "is_path rows orgID [r] a = (r \<in> set rows \<and> OrgID r = orgID \<and> ParentUID r = a \<and> a \<noteq> [])"
| "is_path rows orgID (r # r' # xs) a =
     (r \<in> set rows \<and> OrgID r = orgID \<and> ParentUID r = UID r' \<and> UID r' \<noteq> []
      \<and> is_path rows orgID (r' # xs) a)"

text \<open>
  \<open>removed orgID D s s'\<close>: the state \<open>s'\<close> is \<open>s\<close> without the nested rows of the org whose
  UID is in \<open>D\<close>; the legacy table is the same; no remaining nested row of the org has
  its parent in \<open>D\<close>; and every UID in \<open>D\<close> is non-empty and names a legacy folder row.
\<close>

definition removed :: "int \<Rightarrow> string set \<Rightarrow> Database \<Rightarrow> Database \<Rightarrow> bool" where
  "removed orgID D s s' =
     (legacy s' = legacy s
      \<and> nested s' = filter (\<lambda>f. \<not> (OrgID f = orgID \<and> UID f \<in> D)) (nested s)
      \<and> (\<forall>f \<in> set (nested s'). OrgID f = orgID \<longrightarrow> ParentUID f \<notin> D)
      \<and> (\<forall>u \<in> D. u \<noteq> [] \<and> find (folder_row orgID u) (legacy s) \<noteq> None))"

text \<open>
  A height query for the examples: the height of the subtree below a folder, 0 without
  children, else one more than the highest child, the descent stopping after as many
  levels as the first argument. The moves of the examples have their destination
  outside the subtree that moves.
\<close>

fun height :: "nat \<Rightarrow> Folder list \<Rightarrow> int \<Rightarrow> string \<Rightarrow> int" where
  "height 0 rows orgID uid = 0"
| "height (Suc n) rows orgID uid =
     (let hs = map (\<lambda>c. height n rows orgID (UID c)) (children rows orgID uid) in
      if hs = [] then 0 else 1 + fold max hs 0)"

definition subtree_height :: "Folder list \<Rightarrow> string \<Rightarrow> int \<Rightarrow> string option \<Rightarrow> error + 64 word" where
  "subtree_height rows uid orgID parentUID =
     Inr (word_of_int (height (nat MaxNestedFolderDepth + 1) rows orgID uid))"

text \<open>A principal, collaborators that allow everything, and ones that hide one folder.\<close>

definition alice :: Requester where
  "alice = \<lparr>NamespaceID = ''user'', NamespacedUserID = ''7'', IsNil = False\<rparr>"

definition allow_guardian :: DashboardGuardian where
  "allow_guardian =
     \<lparr>CanView = Inr True, CanDelete = Inr True, CanSave = Inr True,
      CanCreate = (\<lambda>folderID isFolder. Inr True)\<rparr>"

definition allow_all :: Collaborators where
  "allow_all =
     \<lparr>col_Evaluate = (\<lambda>user ev. Inr True),
      col_guardianByUID = (\<lambda>uid orgID user. Inr allow_guardian),
      col_guardianByID = (\<lambda>folderID orgID user. Inr allow_guardian),
      col_GenerateShortUID = (\<lambda>n. ''generated''),
      col_registry = [],
      col_GetHeight = subtree_height\<rparr>"

definition hide :: "string \<Rightarrow> Collaborators" where
  "hide hidden =
     allow_all\<lparr>col_guardianByUID :=
       (\<lambda>uid orgID user. Inr (if uid = hidden then allow_guardian\<lparr>CanView := Inr False\<rparr>
                               else allow_guardian))\<rparr>"

text \<open>Rows of org 1 whose title is their UID.\<close>

definition folder_of :: "int \<Rightarrow> string \<Rightarrow> string \<Rightarrow> Folder" where
  "folder_of i uid parent =
     \<lparr>ID = i, OrgID = 1, UID = uid, ParentUID = parent, Title = uid, Description = [],
      Version = 0\<rparr>"

definition row_of :: "int \<Rightarrow> string \<Rightarrow> string \<Rightarrow> Dashboard" where
  "row_of i uid parent =
     \<lparr>dash_ID = i, dash_UID = uid, dash_OrgID = 1, dash_Title = uid, dash_Version = 1,
      dash_FolderID = 0, dash_FolderUID = parent, dash_IsFolder = True, dash_CreatedBy = 7,
      dash_UpdatedBy = 7, dash_PluginID = [],
      dash_Data = [(''title'', JString uid), (''uid'', JString uid), (''version'', JInt 1)]\<rparr>"

text \<open>Two root folders \<open>a\<close> and \<open>b\<close>, present in both tables.\<close>

definition two_roots :: Database where
  "two_roots =
     \<lparr>legacy = [row_of 1 ''a'' [], row_of 2 ''b'' []],
      nested = [folder_of 11 ''a'' [], folder_of 12 ''b'' []]\<rparr>"

text \<open>The same, with the legacy row of \<open>b\<close> missing.\<close>

definition orphan_b :: Database where
  "orphan_b =
     \<lparr>legacy = [row_of 1 ''a'' []],
      nested = [folder_of 11 ''a'' [], folder_of 12 ''b'' []]\<rparr>"

text \<open>A folder \<open>p\<close> with the children \<open>a\<close> and \<open>b\<close>; the legacy row of \<open>b\<close> is missing.\<close>

definition family :: Database where
  "family =
     \<lparr>legacy = [row_of 1 ''p'' [], row_of 2 ''a'' ''p''],
      nested = [folder_of 11 ''p'' [], folder_of 12 ''a'' ''p'', folder_of 13 ''b'' ''p'']\<rparr>"

text \<open>
  Two chains, each folder the parent of the next: \<open>f\<close>, \<open>a\<close>, \<open>b\<close>, \<open>c\<close>, \<open>d\<close> and
  \<open>g\<close>, \<open>h\<close>, \<open>i\<close>, \<open>j\<close>.
\<close>

definition two_chains :: Database where
  "two_chains =
     \<lparr>legacy = [row_of 1 ''f'' [], row_of 2 ''a'' ''f'', row_of 3 ''b'' ''a'',
                row_of 4 ''c'' ''b'', row_of 5 ''d'' ''c'', row_of 6 ''g'' [],
                row_of 7 ''h'' ''g'', row_of 8 ''i'' ''h'', row_of 9 ''j'' ''i''],
      nested = [folder_of 11 ''f'' [], folder_of 12 ''a'' ''f'', folder_of 13 ''b'' ''a'',
                folder_of 14 ''c'' ''b'', folder_of 15 ''d'' ''c'', folder_of 16 ''g'' [],
                folder_of 17 ''h'' ''g'', folder_of 18 ''i'' ''h'', folder_of 19 ''j'' ''i'']\<rparr>"

text \<open>
  A folder \<open>p\<close>, and the tables after the folder \<open>x\<close> was created at the root level with
  the title \<open>T\<close> followed by a space and the folder \<open>y\<close> below \<open>p\<close> with the title \<open>T\<close>:
  the legacy rows hold the trimmed titles, the nested rows the titles as given.
\<close>

definition only_p :: Database where
  "only_p = \<lparr>legacy = [row_of 1 ''p'' []], nested = [folder_of 11 ''p'' []]\<rparr>"

definition created_row :: "int \<Rightarrow> string \<Rightarrow> string \<Rightarrow> Dashboard" where
  "created_row i uid parent =
     \<lparr>dash_ID = i, dash_UID = uid, dash_OrgID = 1, dash_Title = ''T'', dash_Version = 1,
      dash_FolderID = 0, dash_FolderUID = parent, dash_IsFolder = True, dash_CreatedBy = 7,
      dash_UpdatedBy = 7, dash_PluginID = [],
      dash_Data = [(''title'', JString ''T''), (''schemaVersion'', JInt 17),
                   (''version'', JInt 1), (''uid'', JString uid)]\<rparr>"

definition twins :: Database where
  "twins =
     \<lparr>legacy = [row_of 1 ''p'' [], created_row 2 ''x'' [], created_row 3 ''y'' ''p''],
      nested = [folder_of 11 ''p'' [], (folder_of 12 ''x'' [])\<lparr>Title := ''T ''\<rparr>,
                (folder_of 13 ''y'' ''p'')\<lparr>Title := ''T''\<rparr>]\<rparr>"

text \<open>The chain \<open>f\<close>, \<open>a\<close>, \<open>b\<close>, and a root folder \<open>g\<close>.\<close>

definition short_chain :: Database where
  "short_chain =
     \<lparr>legacy = [row_of 1 ''f'' [], row_of 2 ''a'' ''f'', row_of 3 ''b'' ''a'', row_of 4 ''g'' []],
      nested = [folder_of 11 ''f'' [], folder_of 12 ''a'' ''f'', folder_of 13 ''b'' ''a'',
                folder_of 14 ''g'' []]\<rparr>"

text \<open>The view check that a child of the root level undergoes in \<open>GetChildren\<close>.\<close>

definition child_view :: "'s Service \<Rightarrow> 's \<Rightarrow> Requester \<Rightarrow> Folder \<Rightarrow> error + bool" where
  "child_view svc s user dashFolder =
     (case guardian_NewByFolder (pkg svc) s dashFolder (OrgID dashFolder) user of
        Inl err \<Rightarrow> Inl err
      | Inr g \<Rightarrow> CanView g)"

text \<open>Requests of the principal in org 1.\<close>

definition by_uid :: "string \<Rightarrow> GetFolderQuery" where
  "by_uid uid =
     \<lparr>q_UID = Some uid, q_ID = None, q_Title = None, q_OrgID = 1, q_SignedInUser = Some alice\<rparr>"

definition by_id :: "int \<Rightarrow> GetFolderQuery" where
  "by_id i =
     \<lparr>q_UID = None, q_ID = Some i, q_Title = None, q_OrgID = 1, q_SignedInUser = Some alice\<rparr>"

definition by_title :: "string \<Rightarrow> GetFolderQuery" where
  "by_title title =
     \<lparr>q_UID = None, q_ID = None, q_Title = Some title, q_OrgID = 1, q_SignedInUser = Some alice\<rparr>"

text \<open>A query that names \<open>b\<close> by UID and \<open>a\<close> by id and by title.\<close>

definition three_selectors :: GetFolderQuery where
  "three_selectors =
     \<lparr>q_UID = Some ''b'', q_ID = Some 1, q_Title = Some ''a'', q_OrgID = 1,
      q_SignedInUser = Some alice\<rparr>"

definition children_of :: "string \<Rightarrow> GetChildrenQuery" where
  "children_of uid = \<lparr>gc_UID = uid, gc_OrgID = 1, gc_SignedInUser = Some alice\<rparr>"

definition move_under :: "string \<Rightarrow> string \<Rightarrow> MoveFolderCommand" where
  "move_under uid parent =
     \<lparr>m_UID = uid, m_NewParentUID = parent, m_OrgID = 1, m_SignedInUser = Some alice\<rparr>"

definition delete_of :: "string \<Rightarrow> DeleteFolderCommand" where
  "delete_of uid =
     \<lparr>d_UID = uid, d_OrgID = 1, d_ForceDeleteRules = False, d_SignedInUser = Some alice\<rparr>"

definition create_under :: "string \<Rightarrow> string \<Rightarrow> string \<Rightarrow> CreateFolderCommand" where
  "create_under uid title parent =
     \<lparr>c_UID = uid, c_OrgID = 1, c_Title = title, c_Description = [], c_ParentUID = parent,
      c_SignedInUser = Some alice\<rparr>"

text \<open>What is left of \<open>short_chain\<close> once \<open>f\<close> and its subtree are gone.\<close>

definition only_g :: Database where
  "only_g = \<lparr>legacy = [row_of 4 ''g'' []], nested = [folder_of 14 ''g'' []]\<rparr>"

text \<open>An update of \<open>b\<close> that names \<open>a\<close> as the new parent.\<close>

definition reparent_b :: UpdateFolderCommand where
  "reparent_b =
     \<lparr>u_UID = ''b'', u_OrgID = 1, u_NewTitle = None, u_NewDescription = None,
      u_NewParentUID = Some ''a'', u_Version = 1, u_Overwrite = False,
      u_SignedInUser = Some alice\<rparr>"

text \<open>The service over the tables with a legacy store whose delete fails.\<close>

definition failing_delete :: "Database Service" where
  "failing_delete =
     (spec_service allow_all True)
       \<lparr>dashboardStore := (spec_dashboardStore allow_all)
          \<lparr>DeleteDashboard := (\<lambda>cmd s. (Some (ErrOther ''database is locked''), s))\<rparr>\<rparr>"

section \<open>Properties\<close>

lemmas spec_defs =
  spec_service_def spec_store_def spec_dashboardStore_def spec_dashboardFolderStore_def
  spec_pkg_def allow_all_def allow_guardian_def hide_def alice_def folder_of_def row_of_def
  by_uid_def by_id_def three_selectors_def children_of_def move_under_def delete_of_def create_under_def failing_delete_def

lemmas store_defs =
  legacy_GetFolderByUID_def legacy_GetFolderByID_def legacy_GetFolderByTitle_def
  legacy_GetFolders_def legacy_GetDashboard_def legacy_DeleteDashboard_def
  legacy_ValidateDashboardBeforeSave_def legacy_SaveDashboard_def fresh_ID_def
  nested_Get_def nested_GetChildren_def nested_GetParents_def subtree_height_def
  nested_Create_def nested_Update_def nested_Delete_def children_def folder_key_def
  folder_row_def FromDashboard_def

subsection \<open>Strings\<close>

lemma TrimSpace_examples:
  "TrimSpace ''n'' = ''n''"
  "TrimSpace ''New'' = ''New''"
  "TrimSpace ''b'' = ''b''"
  "TrimSpace [] = []"
  "TrimSpace [CHR 0xC2, CHR 0xA0, CHR 0x20] = []"
  by code_simp+

subsection \<open>Errors and transactions\<close>

lemma toFolderError_title [simp]: "toFolderError ErrDashboardTitleEmpty = ErrFolderTitleEmpty"
  by (simp add: toFolderError_def same_base_def)

lemma toFolderError_folder_not_found [simp]:
  "toFolderError dashboards_ErrFolderNotFound = dashboards_ErrFolderNotFound"
  by (simp add: toFolderError_def same_base_def)

lemma InTransaction_fst: "fst (InTransaction body s) = fst (body s)"
  by (simp add: InTransaction_def split: prod.splits sum.splits)

lemma InTransaction_error: "fst (body s) = Inl e \<Longrightarrow> InTransaction body s = (Inl e, s)"
  by (cases "body s") (auto simp: InTransaction_def)

subsection \<open>GetParents\<close>

text \<open>
  C10. With the nested-folders feature disabled, \<open>GetParents\<close> returns the empty result
  and no error for every query and every state, and whatever nested store the service
  holds: the store is not consulted.
\<close>

theorem GetParents_disabled_empty:
  "\<not> features svc \<Longrightarrow> GetParents (svc\<lparr>store := st\<rparr>) q s = Inr []"
  by (simp add: GetParents_def)

theorem GetParents_disabled_empty_witness:
  "\<not> features (spec_service allow_all False)
   \<and> GetParents ((spec_service allow_all False)\<lparr>store := spec_store allow_all\<rparr>)
        \<lparr>gp_UID = ''missing'', gp_OrgID = 1\<rparr> two_roots = Inr []"
  using GetParents_disabled_empty [of "spec_service allow_all False" "spec_store allow_all"
      "\<lparr>gp_UID = ''missing'', gp_OrgID = 1\<rparr>" two_roots]
  by (simp add: spec_service_def)

subsection \<open>Create with an empty title\<close>

lemma build_empty_title:
  "TrimSpace (dash_Title (dto_Dashboard dto)) = [] \<Longrightarrow>
   buildSaveDashboardCommand svc s dto = Inl ErrDashboardTitleEmpty"
  by (simp add: buildSaveDashboardCommand_def Let_def SetUID_def)

lemma Create_dto_title: "dash_Title (dto_Dashboard (Create_dto svc cmd user)) = c_Title cmd"
  by (simp add: Create_dto_def Let_def SetUID_def NewDashboardFolder_def)

text \<open>
  C8. A \<open>Create\<close> whose title is empty after trimming, white space being what
  \<open>strings.TrimSpace\<close> removes, writes nothing: the state is the one before the call
  and no folder is returned. When the command passes the checks
  that come before the save path (a principal is present, the access check on the
  parent passes where it applies, the UID is not the reserved one), the error is the
  title-empty error.
\<close>

theorem Create_empty_title:
  assumes "TrimSpace (c_Title cmd) = []"
  shows "snd (Create svc cmd s) = s \<and> fst (fst (Create svc cmd s)) = None
    \<and> (c_SignedInUser cmd = Some user \<and> \<not> IsNil user
        \<and> (features svc \<and> c_ParentUID cmd \<noteq> [] \<longrightarrow>
             accessControl svc s user
               (EvalPermission ActionFoldersWrite [GetResourceScopeUID (c_ParentUID cmd)]) = Inr True)
        \<and> TrimSpace (c_UID cmd) \<noteq> GeneralFolderUID
        \<longrightarrow> snd (fst (Create svc cmd s)) = Some ErrFolderTitleEmpty)"
  using assms
  by (auto simp: Create_def build_empty_title Create_dto_title split: option.splits sum.splits)

theorem Create_empty_title_witness:
  "TrimSpace (c_Title (create_under ''n'' [CHR 0xC2, CHR 0xA0, CHR 0x20] ''a'')) = []
   \<and> Create (spec_service allow_all True)
        (create_under ''n'' [CHR 0xC2, CHR 0xA0, CHR 0x20] ''a'') two_roots
       = ((None, Some ErrFolderTitleEmpty), two_roots)"
proof -
  let ?cmd = "create_under ''n'' [CHR 0xC2, CHR 0xA0, CHR 0x20] ''a''"
  let ?svc = "spec_service allow_all True"
  have t: "TrimSpace (c_Title ?cmd) = []"
    by (simp add: create_under_def TrimSpace_examples)
  have g: "c_SignedInUser ?cmd = Some alice \<and> \<not> IsNil alice
        \<and> (features ?svc \<and> c_ParentUID ?cmd \<noteq> [] \<longrightarrow>
             accessControl ?svc two_roots alice
               (EvalPermission ActionFoldersWrite [GetResourceScopeUID (c_ParentUID ?cmd)]) = Inr True)
        \<and> TrimSpace (c_UID ?cmd) \<noteq> GeneralFolderUID"
    by (simp add: spec_defs TrimSpace_examples GeneralFolderUID_def)
  from Create_empty_title [OF t, of ?svc two_roots alice] g t
  show ?thesis by (metis prod.collapse)
qed

subsection \<open>The depth check of Move\<close>

lemma Move_body_not_depth:
  "fst (Move_body svc cmd p s) \<noteq> Inl (ErrMaximumDepthReached msg)"
  by (simp add: Move_body_def split: prod.splits sum.splits)

lemma depth_sum:
  fixes folderHeight :: "64 word"
  assumes "sint folderHeight + int n + 2 < 2 ^ 63"
  shows "sint (folderHeight + word_of_nat n + 2) = sint folderHeight + int n + 2"
proof -
  have "folderHeight + word_of_nat n + 2 = word_of_int (sint folderHeight + int n + 2)"
    by simp
  moreover have "- (2 ^ 63) \<le> sint folderHeight"
    using sint_ge [of folderHeight] by simp
  then have "- (2 ^ (LENGTH(64) - 1)) \<le> sint folderHeight + int n + 2"
    by simp
  moreover from assms have "sint folderHeight + int n + 2 < 2 ^ (LENGTH(64) - 1)"
    by simp
  ultimately show ?thesis
    by (simp only: sint_sbintrunc' signed_take_bit_int_eq_self)
qed

text \<open>
  C1. For a \<open>Move\<close> that reaches the depth check (a principal is present, the access
  check on the destination passes, the store returns the height of the moved subtree
  and the ancestors of the destination) and whose sum of height, number of ancestors
  and 2 does not overflow the 64-bit \<open>int\<close> in which the service adds them: if the sum
  exceeds 8, the result is MaxDepthReached and the state is the one before the call;
  if the sum is at most 8, the result is not MaxDepthReached.
\<close>

theorem Move_depth_check:
  assumes "m_SignedInUser cmd = Some user"
    and "accessControl svc s user
           (if m_NewParentUID cmd \<noteq> []
            then EvalPermission ActionFoldersWrite [GetResourceScopeUID (m_NewParentUID cmd)]
            else EvalPermission ActionFoldersCreate []) = Inr True"
    and "store_GetHeight (store svc) s (m_UID cmd) (m_OrgID cmd) (Some (m_NewParentUID cmd))
           = Inr folderHeight"
    and "store_GetParents (store svc) s \<lparr>gp_UID = m_NewParentUID cmd, gp_OrgID = m_OrgID cmd\<rparr>
           = Inr parents"
    and "sint folderHeight + int (length parents) + 2 < 2 ^ 63"
  shows "(sint folderHeight + int (length parents) + 2 > 8 \<longrightarrow>
            Move svc cmd s = (Inl (ErrMaximumDepthReached ''failed to move folder''), s))
       \<and> (sint folderHeight + int (length parents) + 2 \<le> 8 \<longrightarrow>
            (\<forall>msg. fst (Move svc cmd s) \<noteq> Inl (ErrMaximumDepthReached msg)))"
proof -
  from depth_sum [OF assms(5)]
  have sum: "sint (folderHeight + word_of_nat (length parents) + 2)
      = sint folderHeight + int (length parents) + 2" .
  have "Move svc cmd s =
      (if sint (folderHeight + word_of_nat (length parents) + 2) > 8
       then (Inl (ErrMaximumDepthReached ''failed to move folder''), s)
       else if \<exists>parent \<in> set parents. UID parent = m_UID cmd
         then (Inl (ErrCircularReference ''failed to move folder''), s)
       else InTransaction (Move_body svc cmd (m_NewParentUID cmd)) s)"
    using assms(1-4) by (simp add: Move_def Let_def MaxNestedFolderDepth_def)
  then show ?thesis
    unfolding sum by (simp add: InTransaction_fst Move_body_not_depth)
qed

theorem Move_depth_check_witness:
  "store_GetHeight (store (spec_service allow_all True)) two_chains ''f'' 1 (Some ''j'') = Inr 4
   \<and> store_GetParents (store (spec_service allow_all True)) two_chains
        \<lparr>gp_UID = ''j'', gp_OrgID = 1\<rparr>
       = Inr [folder_of 16 ''g'' [], folder_of 17 ''h'' ''g'', folder_of 18 ''i'' ''h'']
   \<and> Move (spec_service allow_all True) (move_under ''f'' ''j'') two_chains
       = (Inl (ErrMaximumDepthReached ''failed to move folder''), two_chains)
   \<and> store_GetHeight (store (spec_service allow_all True)) short_chain ''b'' 1 (Some ''g'') = Inr 0
   \<and> store_GetParents (store (spec_service allow_all True)) short_chain
        \<lparr>gp_UID = ''g'', gp_OrgID = 1\<rparr> = Inr []
   \<and> fst (Move (spec_service allow_all True) (move_under ''b'' ''g'') short_chain)
       \<noteq> Inl (ErrMaximumDepthReached ''failed to move folder'')"
proof -
  let ?svc = "spec_service allow_all True"
  let ?ps = "[folder_of 16 ''g'' [], folder_of 17 ''h'' ''g'', folder_of 18 ''i'' ''h'']"
  have u1: "m_SignedInUser (move_under ''f'' ''j'') = Some alice"
    and u2: "m_SignedInUser (move_under ''b'' ''g'') = Some alice"
    by (simp_all add: move_under_def)
  have a1: "accessControl ?svc two_chains alice
           (if m_NewParentUID (move_under ''f'' ''j'') \<noteq> []
            then EvalPermission ActionFoldersWrite
                   [GetResourceScopeUID (m_NewParentUID (move_under ''f'' ''j''))]
            else EvalPermission ActionFoldersCreate []) = Inr True"
    and a2: "accessControl ?svc short_chain alice
           (if m_NewParentUID (move_under ''b'' ''g'') \<noteq> []
            then EvalPermission ActionFoldersWrite
                   [GetResourceScopeUID (m_NewParentUID (move_under ''b'' ''g''))]
            else EvalPermission ActionFoldersCreate []) = Inr True"
    by (simp_all add: spec_defs)
  have "height 9 (nested two_chains) 1 ''f'' = 4" and "height 9 (nested short_chain) 1 ''b'' = 0"
    by code_simp+
  then have h1: "store_GetHeight (store ?svc) two_chains (m_UID (move_under ''f'' ''j''))
              (m_OrgID (move_under ''f'' ''j'')) (Some (m_NewParentUID (move_under ''f'' ''j'')))
            = Inr 4"
    and h2: "store_GetHeight (store ?svc) short_chain (m_UID (move_under ''b'' ''g''))
              (m_OrgID (move_under ''b'' ''g'')) (Some (m_NewParentUID (move_under ''b'' ''g'')))
            = Inr 0"
    by (simp_all add: spec_service_def spec_store_def allow_all_def subtree_height_def
        MaxNestedFolderDepth_def move_under_def)
  have p1: "store_GetParents (store ?svc) two_chains
              \<lparr>gp_UID = m_NewParentUID (move_under ''f'' ''j''),
               gp_OrgID = m_OrgID (move_under ''f'' ''j'')\<rparr>
            = Inr ?ps"
    by code_simp
  have p2: "store_GetParents (store ?svc) short_chain
              \<lparr>gp_UID = m_NewParentUID (move_under ''b'' ''g''),
               gp_OrgID = m_OrgID (move_under ''b'' ''g'')\<rparr>
            = Inr []"
    by code_simp
  have b1: "sint (4 :: 64 word) + int (length ?ps) + 2 < 2 ^ 63"
    and b2: "sint (0 :: 64 word) + int (length ([] :: Folder list)) + 2 < 2 ^ 63"
    by simp_all
  from Move_depth_check [OF u1 a1 h1 p1 b1] Move_depth_check [OF u2 a2 h2 p2 b2] h1 p1 h2 p2
  show ?thesis by (simp add: move_under_def)
qed

subsection \<open>Get\<close>

text \<open>
  In nested mode, for a folder that is not the root folder and that the principal may
  view, the result of \<open>Get\<close> is the folder the nested store returns with its id and
  version replaced by those of the legacy folder that \<open>Get\<close> looked up. A query by id
  reaches the nested store as a query for the UID of that legacy folder; a query by
  UID or by title reaches it as it is.
\<close>

lemma Get_nested_result:
  assumes "q_SignedInUser cmd = Some user"
    and "Get_lookup svc s cmd = Inr dashFolder"
    and "\<not> IsGeneral dashFolder"
    and "guardian_NewByFolder (pkg svc) s dashFolder (OrgID dashFolder) user = Inr g"
    and "CanView g = Inr True"
    and "features svc"
    and "store_Get (store svc) s
           (if q_ID cmd \<noteq> None then cmd\<lparr>q_ID := None, q_UID := Some (UID dashFolder)\<rparr> else cmd)
         = Inr f"
  shows "Get svc cmd s = Inr (f\<lparr>ID := ID dashFolder, Version := Version dashFolder\<rparr>)"
  using assms by (simp add: Get_def Let_def)

lemma Get_nested_result_by_id:
  "Get_lookup (spec_service allow_all True) two_roots (by_id 2) = Inr (FromDashboard (row_of 2 ''b'' []))
   \<and> store_Get (store (spec_service allow_all True)) two_roots (by_uid ''b'')
       = Inr (folder_of 12 ''b'' [])
   \<and> Get (spec_service allow_all True) (by_id 2) two_roots
       = Inr ((folder_of 12 ''b'' [])\<lparr>ID := 2, Version := 1\<rparr>)"
proof -
  let ?svc = "spec_service allow_all True"
  let ?d = "FromDashboard (row_of 2 ''b'' [])"
  have u: "q_SignedInUser (by_id 2) = Some alice"
    by (simp add: by_id_def)
  have l: "Get_lookup ?svc two_roots (by_id 2) = Inr ?d"
    by (simp add: Get_lookup_def getFolderByID_def spec_defs store_defs two_roots_def)
  have n: "\<not> IsGeneral ?d"
    by (simp add: IsGeneral_def GeneralFolder_def FromDashboard_def row_of_def)
  have g: "guardian_NewByFolder (pkg ?svc) two_roots ?d (OrgID ?d) alice = Inr allow_guardian"
    by (simp add: spec_service_def spec_pkg_def allow_all_def)
  have v: "CanView allow_guardian = Inr True"
    by (simp add: allow_guardian_def)
  have e: "features ?svc"
    by (simp add: spec_service_def)
  have q: "(if q_ID (by_id 2) \<noteq> None then (by_id 2)\<lparr>q_ID := None, q_UID := Some (UID ?d)\<rparr>
            else by_id 2) = by_uid ''b''"
    by (simp add: by_id_def by_uid_def FromDashboard_def row_of_def)
  have f: "store_Get (store ?svc) two_roots (by_uid ''b'') = Inr (folder_of 12 ''b'' [])"
    by (simp add: spec_defs store_defs two_roots_def)
  from Get_nested_result [OF u l n g v e, of "folder_of 12 ''b'' []"] q f l
  show ?thesis by (simp add: FromDashboard_def row_of_def)
qed

lemma Get_strip:
  assumes "Get_lookup svc s cmd' = Get_lookup svc s cmd"
    and "q_SignedInUser cmd' = q_SignedInUser cmd" and "\<not> features svc"
  shows "Get svc cmd' s = Get svc cmd s"
  using assms by (simp add: Get_def split: option.splits sum.splits)

text \<open>
  C6, as amended. A query of a signed-in principal that supplies none of UID (an empty
  UID counts as none), id and title returns a bad-request error. A query that supplies
  more than one is not an error: the legacy lookup is the one of the first selector in
  the order non-empty UID, id, title, and with nested folders disabled the result is
  that of the query with the later selectors removed.
\<close>

theorem Get_selector_precedence:
  assumes "q_SignedInUser cmd = Some user"
  shows "((q_UID cmd = None \<or> q_UID cmd = Some []) \<and> q_ID cmd = None \<and> q_Title cmd = None \<longrightarrow>
            Get svc cmd s
              = Inl (ErrBadRequest ''either on of UID, ID, Title fields must be present''))
       \<and> (q_UID cmd \<noteq> None \<and> q_UID cmd \<noteq> Some [] \<longrightarrow>
            Get_lookup svc s cmd
              = GetFolderByUID (dashboardFolderStore svc) s (q_OrgID cmd) (the (q_UID cmd))
            \<and> (\<not> features svc \<longrightarrow>
                 Get svc cmd s = Get svc (cmd\<lparr>q_ID := None, q_Title := None\<rparr>) s))
       \<and> ((q_UID cmd = None \<or> q_UID cmd = Some []) \<and> q_ID cmd \<noteq> None \<longrightarrow>
            Get_lookup svc s cmd = getFolderByID svc s (the (q_ID cmd)) (q_OrgID cmd)
            \<and> (\<not> features svc \<longrightarrow> Get svc cmd s = Get svc (cmd\<lparr>q_Title := None\<rparr>) s))"
proof (intro conjI impI)
  assume "(q_UID cmd = None \<or> q_UID cmd = Some []) \<and> q_ID cmd = None \<and> q_Title cmd = None"
  with assms show "Get svc cmd s
      = Inl (ErrBadRequest ''either on of UID, ID, Title fields must be present'')"
    by (auto simp: Get_def Get_lookup_def)
next
  assume "q_UID cmd \<noteq> None \<and> q_UID cmd \<noteq> Some []"
  then show "Get_lookup svc s cmd
      = GetFolderByUID (dashboardFolderStore svc) s (q_OrgID cmd) (the (q_UID cmd))"
    by (auto simp: Get_lookup_def getFolderByUID_def)
next
  assume a: "q_UID cmd \<noteq> None \<and> q_UID cmd \<noteq> Some []" and n: "\<not> features svc"
  from a have "Get_lookup svc s (cmd\<lparr>q_ID := None, q_Title := None\<rparr>) = Get_lookup svc s cmd"
    by (auto simp: Get_lookup_def)
  then have "Get svc (cmd\<lparr>q_ID := None, q_Title := None\<rparr>) s = Get svc cmd s"
    using n by (intro Get_strip) simp_all
  then show "Get svc cmd s = Get svc (cmd\<lparr>q_ID := None, q_Title := None\<rparr>) s"
    by (rule sym)
next
  assume "(q_UID cmd = None \<or> q_UID cmd = Some []) \<and> q_ID cmd \<noteq> None"
  then show "Get_lookup svc s cmd = getFolderByID svc s (the (q_ID cmd)) (q_OrgID cmd)"
    by (auto simp: Get_lookup_def)
next
  assume a: "(q_UID cmd = None \<or> q_UID cmd = Some []) \<and> q_ID cmd \<noteq> None"
    and n: "\<not> features svc"
  from a have "Get_lookup svc s (cmd\<lparr>q_Title := None\<rparr>) = Get_lookup svc s cmd"
    by (auto simp: Get_lookup_def)
  then have "Get svc (cmd\<lparr>q_Title := None\<rparr>) s = Get svc cmd s"
    using n by (intro Get_strip) simp_all
  then show "Get svc cmd s = Get svc (cmd\<lparr>q_Title := None\<rparr>) s"
    by (rule sym)
qed

theorem Get_selector_precedence_witness:
  "Get (spec_service allow_all False) ((by_uid [])\<lparr>q_UID := None\<rparr>) two_roots
     = Inl (ErrBadRequest ''either on of UID, ID, Title fields must be present'')
   \<and> Get (spec_service allow_all False) three_selectors two_roots
       = Get (spec_service allow_all False) (by_uid ''b'') two_roots
   \<and> Get (spec_service allow_all False) ((by_id 1)\<lparr>q_Title := Some ''b''\<rparr>) two_roots
       = Get (spec_service allow_all False) (by_id 1) two_roots"
proof -
  let ?svc = "spec_service allow_all False"
  have n: "\<not> features ?svc"
    by (simp add: spec_service_def)
  have "q_SignedInUser ((by_uid [])\<lparr>q_UID := None\<rparr>) = Some alice"
    by (simp add: by_uid_def)
  from Get_selector_precedence [OF this, of ?svc two_roots]
  have 1: "Get ?svc ((by_uid [])\<lparr>q_UID := None\<rparr>) two_roots
     = Inl (ErrBadRequest ''either on of UID, ID, Title fields must be present'')"
    by (simp add: by_uid_def)
  have "q_SignedInUser three_selectors = Some alice"
    by (simp add: three_selectors_def)
  from Get_selector_precedence [OF this, of ?svc two_roots] n
  have 2: "Get ?svc three_selectors two_roots = Get ?svc (by_uid ''b'') two_roots"
    by (simp add: three_selectors_def by_uid_def)
  have "q_SignedInUser ((by_id 1)\<lparr>q_Title := Some ''b''\<rparr>) = Some alice"
    by (simp add: by_id_def)
  from Get_selector_precedence [OF this, of ?svc two_roots] n
  have 3: "Get ?svc ((by_id 1)\<lparr>q_Title := Some ''b''\<rparr>) two_roots = Get ?svc (by_id 1) two_roots"
    by (simp add: by_id_def)
  from 1 2 3 show ?thesis by simp
qed

text \<open>
  The claim as stated fails: the query \<open>three_selectors\<close> supplies all three selectors,
  naming \<open>b\<close> by UID and \<open>a\<close> by id and title, and \<open>Get\<close> answers with \<open>b\<close>, in legacy and
  in nested mode.
\<close>

theorem Get_three_selectors_counterexample:
  "Get (spec_service allow_all False) three_selectors two_roots
     = Inr (FromDashboard (row_of 2 ''b'' []))
   \<and> Get (spec_service allow_all True) three_selectors two_roots
       = Inr ((folder_of 12 ''b'' [])\<lparr>ID := 2, Version := 1\<rparr>)"
  by (simp add: Get_def Get_lookup_def getFolderByUID_def IsGeneral_def GeneralFolder_def
      spec_defs store_defs two_roots_def)

subsection \<open>GetChildren\<close>

lemma GetChildren_loop_inherited:
  "GetChildren_loop svc s False user m fs acc
     = Inr (acc @ map (\<lambda>f. f\<lparr>ID := ID (the (m (UID f)))\<rparr>) (filter (\<lambda>f. m (UID f) \<noteq> None) fs))"
  by (induction fs arbitrary: acc) (auto split: option.splits)

lemma GetChildren_loop_root:
  assumes "\<forall>f \<in> set fs. \<forall>d. m (UID f) = Some d \<longrightarrow> (\<exists>b. child_view svc s user d = Inr b)"
  shows "GetChildren_loop svc s True user m fs acc
     = Inr (acc @ map (\<lambda>f. f\<lparr>ID := ID (the (m (UID f)))\<rparr>)
                    (filter (\<lambda>f. m (UID f) \<noteq> None
                                 \<and> child_view svc s user (the (m (UID f))) = Inr True) fs))"
  using assms
proof (induction fs arbitrary: acc)
  case Nil
  then show ?case by simp
next
  case (Cons f fs)
  show ?case
  proof (cases "m (UID f)")
    case None
    with Cons show ?thesis by simp
  next
    case (Some d)
    with Cons.prems obtain b where b: "child_view svc s user d = Inr b"
      by auto
    from Cons.prems have rest: "\<forall>f \<in> set fs. \<forall>d. m (UID f) = Some d \<longrightarrow>
        (\<exists>b. child_view svc s user d = Inr b)"
      by simp
    from b Some Cons.IH [OF rest] show ?thesis
      by (cases b) (auto simp: child_view_def split: sum.splits)
  qed
qed

text \<open>
  C7, as amended. For a \<open>GetChildren\<close> query of a signed-in principal whose store reads
  succeed: under a parent that the principal may view, the result is the list of the
  nested store's children restricted to the UIDs that the legacy batch lookup
  returned, each with its legacy id, in the store's order; at the root level, when no
  view check ends in an error, the result is that list restricted further to the
  children whose own view check says yes.
\<close>

theorem GetChildren_skips_missing:
  assumes "gc_SignedInUser cmd = Some user"
    and "gc_UID cmd \<noteq> [] \<longrightarrow>
           (\<exists>g. guardian_NewByUID (pkg svc) s (gc_UID cmd) (gc_OrgID cmd) user = Inr g
                \<and> CanView g = Inr True)"
    and "store_GetChildren (store svc) s cmd = Inr cs"
    and "GetFolders (dashboardFolderStore svc) s (gc_OrgID cmd) (map UID cs) = Inr m"
  shows "(gc_UID cmd \<noteq> [] \<longrightarrow>
            GetChildren svc cmd s
              = Inr (map (\<lambda>f. f\<lparr>ID := ID (the (m (UID f)))\<rparr>)
                      (filter (\<lambda>f. m (UID f) \<noteq> None) cs)))
       \<and> (gc_UID cmd = []
            \<and> (\<forall>f \<in> set cs. \<forall>d. m (UID f) = Some d \<longrightarrow> (\<exists>b. child_view svc s user d = Inr b)) \<longrightarrow>
            GetChildren svc cmd s
              = Inr (map (\<lambda>f. f\<lparr>ID := ID (the (m (UID f)))\<rparr>)
                      (filter (\<lambda>f. m (UID f) \<noteq> None
                                   \<and> child_view svc s user (the (m (UID f))) = Inr True) cs)))"
proof (intro conjI impI)
  assume "gc_UID cmd \<noteq> []"
  with assms show "GetChildren svc cmd s
      = Inr (map (\<lambda>f. f\<lparr>ID := ID (the (m (UID f)))\<rparr>) (filter (\<lambda>f. m (UID f) \<noteq> None) cs))"
    by (auto simp: GetChildren_def GetChildren_loop_inherited)
next
  assume r: "gc_UID cmd = []
      \<and> (\<forall>f \<in> set cs. \<forall>d. m (UID f) = Some d \<longrightarrow> (\<exists>b. child_view svc s user d = Inr b))"
  then have "GetChildren_loop svc s True user m cs []
      = Inr ([] @ map (\<lambda>f. f\<lparr>ID := ID (the (m (UID f)))\<rparr>)
                    (filter (\<lambda>f. m (UID f) \<noteq> None
                                 \<and> child_view svc s user (the (m (UID f))) = Inr True) cs))"
    by (intro GetChildren_loop_root) simp
  with r assms show "GetChildren svc cmd s
      = Inr (map (\<lambda>f. f\<lparr>ID := ID (the (m (UID f)))\<rparr>)
              (filter (\<lambda>f. m (UID f) \<noteq> None
                           \<and> child_view svc s user (the (m (UID f))) = Inr True) cs))"
    by (simp add: GetChildren_def)
qed

theorem GetChildren_skips_missing_witness:
  "store_GetChildren (store (spec_service allow_all True)) family (children_of ''p'')
     = Inr [folder_of 12 ''a'' ''p'', folder_of 13 ''b'' ''p'']
   \<and> GetChildren (spec_service allow_all True) (children_of ''p'') family
       = Inr [(folder_of 12 ''a'' ''p'')\<lparr>ID := 2\<rparr>]
   \<and> GetChildren (spec_service (hide ''b'') True) (children_of []) orphan_b
       = Inr [(folder_of 11 ''a'' [])\<lparr>ID := 1\<rparr>]"
proof -
  let ?svc = "spec_service allow_all True"
  let ?m = "\<lambda>uid. if uid \<in> set (map UID [folder_of 12 ''a'' ''p'', folder_of 13 ''b'' ''p''])
                   then map_option FromDashboard (find (folder_row 1 uid) (legacy family))
                   else None"
  have u: "gc_SignedInUser (children_of ''p'') = Some alice"
    by (simp add: children_of_def)
  have g: "gc_UID (children_of ''p'') \<noteq> [] \<longrightarrow>
           (\<exists>g. guardian_NewByUID (pkg ?svc) family (gc_UID (children_of ''p''))
                   (gc_OrgID (children_of ''p'')) alice = Inr g \<and> CanView g = Inr True)"
    by (simp add: spec_defs)
  have c: "store_GetChildren (store ?svc) family (children_of ''p'')
      = Inr [folder_of 12 ''a'' ''p'', folder_of 13 ''b'' ''p'']"
    by (simp add: spec_defs store_defs family_def)
  have m: "GetFolders (dashboardFolderStore ?svc) family (gc_OrgID (children_of ''p''))
             (map UID [folder_of 12 ''a'' ''p'', folder_of 13 ''b'' ''p'']) = Inr ?m"
    by (simp add: spec_defs store_defs)
  from GetChildren_skips_missing [OF u g c m]
  have 1: "GetChildren ?svc (children_of ''p'') family = Inr [(folder_of 12 ''a'' ''p'')\<lparr>ID := 2\<rparr>]"
    by (simp add: children_of_def folder_of_def row_of_def family_def folder_row_def
        FromDashboard_def)
  let ?hid = "spec_service (hide ''b'') True"
  let ?n = "\<lambda>uid. if uid \<in> set (map UID [folder_of 11 ''a'' [], folder_of 12 ''b'' []])
                   then map_option FromDashboard (find (folder_row 1 uid) (legacy orphan_b))
                   else None"
  have u': "gc_SignedInUser (children_of []) = Some alice"
    by (simp add: children_of_def)
  have g': "gc_UID (children_of []) \<noteq> [] \<longrightarrow>
           (\<exists>g. guardian_NewByUID (pkg ?hid) orphan_b (gc_UID (children_of []))
                   (gc_OrgID (children_of [])) alice = Inr g \<and> CanView g = Inr True)"
    by (simp add: children_of_def)
  have c': "store_GetChildren (store ?hid) orphan_b (children_of [])
      = Inr [folder_of 11 ''a'' [], folder_of 12 ''b'' []]"
    by (simp add: spec_defs store_defs orphan_b_def)
  have m': "GetFolders (dashboardFolderStore ?hid) orphan_b (gc_OrgID (children_of []))
             (map UID [folder_of 11 ''a'' [], folder_of 12 ''b'' []]) = Inr ?n"
    by (simp add: spec_defs store_defs)
  have v: "\<forall>f \<in> set [folder_of 11 ''a'' [], folder_of 12 ''b'' []]. \<forall>d. ?n (UID f) = Some d \<longrightarrow>
             (\<exists>b. child_view ?hid orphan_b alice d = Inr b)"
    by (auto simp: child_view_def spec_defs)
  from GetChildren_skips_missing [OF u' g' c' m'] v
  have 2: "GetChildren ?hid (children_of []) orphan_b = Inr [(folder_of 11 ''a'' [])\<lparr>ID := 1\<rparr>]"
    by (simp add: children_of_def folder_of_def row_of_def orphan_b_def folder_row_def
        FromDashboard_def child_view_def spec_service_def spec_pkg_def hide_def allow_all_def
        allow_guardian_def)
  from c 1 2 show ?thesis by simp
qed

text \<open>
  The claim as stated fails at the root level: \<open>b\<close> is a child in the nested store and
  has its legacy row with id 2, and the listing leaves it out because the principal
  may not view it.
\<close>

theorem GetChildren_root_counterexample:
  "store_GetChildren (store (spec_service (hide ''b'') True)) two_roots (children_of [])
     = Inr [folder_of 11 ''a'' [], folder_of 12 ''b'' []]
   \<and> map_option ID (projr (GetFolders (dashboardFolderStore (spec_service (hide ''b'') True))
                              two_roots 1 [''a'', ''b'']) ''b'') = Some 2
   \<and> GetChildren (spec_service (hide ''b'') True) (children_of []) two_roots
       = Inr [(folder_of 11 ''a'' [])\<lparr>ID := 1\<rparr>]"
  by (simp add: GetChildren_def spec_defs store_defs two_roots_def)

subsection \<open>The rollback of Create\<close>

text \<open>
  C4. When \<open>Create\<close> has written the legacy row (the save succeeded and the row was read
  back) and the write to the nested store fails, \<open>Create\<close> calls the legacy delete for
  the row just written, and returns the folder view of the saved row together with
  the error of the nested store; the outcome of the delete is not part of the result.
\<close>

theorem Create_rollback:
  assumes "c_SignedInUser cmd = Some user" and "\<not> IsNil user"
    and "features svc \<and> c_ParentUID cmd \<noteq> [] \<longrightarrow>
           accessControl svc s user
             (EvalPermission ActionFoldersWrite [GetResourceScopeUID (c_ParentUID cmd)]) = Inr True"
    and "TrimSpace (c_UID cmd) \<noteq> GeneralFolderUID"
    and "buildSaveDashboardCommand svc s (Create_dto svc cmd user) = Inr saveDashboardCmd"
    and "SaveDashboard (dashboardStore svc) saveDashboardCmd s = (Inr dash, s1)"
    and "GetFolderByID (dashboardFolderStore svc) s1 (c_OrgID cmd) (dash_ID dash) = Inr createdFolder"
    and "nestedFolderCreate svc
           \<lparr>c_UID = dash_UID dash, c_OrgID = c_OrgID cmd, c_Title = c_Title cmd,
            c_Description = c_Description cmd, c_ParentUID = c_ParentUID cmd,
            c_SignedInUser = None\<rparr> s1 = (Inl err, s2)"
  shows "Create svc cmd s
           = ((Some (FromDashboard dash), Some err),
              snd (DeleteDashboard (dashboardStore svc)
                     \<lparr>dd_ID = ID createdFolder, dd_OrgID = OrgID createdFolder,
                      dd_ForceDeleteFolderRules = False\<rparr> s2))"
  using assms
  by (auto simp: Create_def Let_def split: prod.splits)

theorem Create_rollback_witness:
  "Create (spec_service allow_all True) (create_under ''n'' ''New'' ''zz'') two_roots
     = ((Some \<lparr>ID = 3, OrgID = 1, UID = ''n'', ParentUID = [], Title = ''New'',
                Description = [], Version = 1\<rparr>,
         Some (ErrWrapped ''failed to get parents'' (folder_ErrFolderNotFound ''folder not found''))),
        two_roots)
   \<and> fst (Create failing_delete (create_under ''n'' ''New'' ''zz'') two_roots)
       = (Some \<lparr>ID = 3, OrgID = 1, UID = ''n'', ParentUID = [], Title = ''New'',
                Description = [], Version = 1\<rparr>,
          Some (ErrWrapped ''failed to get parents'' (folder_ErrFolderNotFound ''folder not found'')))"
proof -
  let ?svc = "spec_service allow_all True"
  let ?cmd = "create_under ''n'' ''New'' ''zz''"
  let ?body = "[(''title'', JString ''New''), (''schemaVersion'', JInt 17),
                (''version'', JInt 0), (''uid'', JString ''n'')]"
  let ?save = "\<lparr>sc_Dashboard = ?body, sc_Message = [], sc_OrgID = 1, sc_Overwrite = False,
                sc_UserID = 7, sc_FolderID = 0, sc_FolderUID = ''zz'', sc_IsFolder = True,
                sc_PluginID = []\<rparr>"
  let ?dash = "\<lparr>dash_ID = 3, dash_UID = ''n'', dash_OrgID = 1, dash_Title = ''New'',
                dash_Version = 1, dash_FolderID = 0, dash_FolderUID = ''zz'',
                dash_IsFolder = True, dash_CreatedBy = 7, dash_UpdatedBy = 7, dash_PluginID = [],
                dash_Data = [(''title'', JString ''New''), (''schemaVersion'', JInt 17),
                             (''version'', JInt 1), (''uid'', JString ''n'')]\<rparr>"
  let ?s1 = "two_roots\<lparr>legacy := legacy two_roots @ [?dash]\<rparr>"
  let ?err = "ErrWrapped ''failed to get parents'' (folder_ErrFolderNotFound ''folder not found'')"
  have u: "c_SignedInUser ?cmd = Some alice" and n: "\<not> IsNil alice"
    by (simp_all add: create_under_def alice_def)
  have a: "features ?svc \<and> c_ParentUID ?cmd \<noteq> [] \<longrightarrow>
           accessControl ?svc two_roots alice
             (EvalPermission ActionFoldersWrite [GetResourceScopeUID (c_ParentUID ?cmd)]) = Inr True"
    and a': "features failing_delete \<and> c_ParentUID ?cmd \<noteq> [] \<longrightarrow>
           accessControl failing_delete two_roots alice
             (EvalPermission ActionFoldersWrite [GetResourceScopeUID (c_ParentUID ?cmd)]) = Inr True"
    by (simp_all add: spec_defs)
  have g: "TrimSpace (c_UID ?cmd) \<noteq> GeneralFolderUID"
    by (simp add: create_under_def TrimSpace_examples GeneralFolderUID_def)
  have dto: "Create_dto ?svc ?cmd alice
      = \<lparr>dto_Dashboard = \<lparr>dash_ID = 0, dash_UID = ''n'', dash_OrgID = 1, dash_Title = ''New'',
             dash_Version = 0, dash_FolderID = 0, dash_FolderUID = ''zz'', dash_IsFolder = True,
             dash_CreatedBy = 7, dash_UpdatedBy = 7, dash_PluginID = [], dash_Data = ?body\<rparr>,
          dto_OrgID = 1, dto_User = alice, dto_Overwrite = False, dto_Message = []\<rparr>"
    by (simp add: Create_dto_def Let_def NewDashboardFolder_def SetUID_def userID_of_def
        TrimSpace_examples NamespaceUser_def spec_IntIdentifier_def digit_val_def
        spec_service_def spec_pkg_def create_under_def alice_def)
  have dto': "Create_dto failing_delete ?cmd alice = Create_dto ?svc ?cmd alice"
    by (simp add: Create_dto_def Let_def userID_of_def failing_delete_def spec_service_def)
  have b: "buildSaveDashboardCommand ?svc two_roots (Create_dto ?svc ?cmd alice) = Inr ?save"
    unfolding dto
    by (simp add: buildSaveDashboardCommand_def Let_def SetUID_def TrimSpace_examples
        EqualFold_def toLower_def RootFolderName_def uid_char_def
        getGuardianForSavePermissionCheck_def userID_of_def NamespaceUser_def
        spec_IntIdentifier_def digit_val_def spec_defs store_defs two_roots_def)
  have b': "buildSaveDashboardCommand failing_delete two_roots (Create_dto failing_delete ?cmd alice)
      = Inr ?save"
    unfolding dto' dto
    by (simp add: buildSaveDashboardCommand_def Let_def SetUID_def TrimSpace_examples
        EqualFold_def toLower_def RootFolderName_def uid_char_def
        getGuardianForSavePermissionCheck_def userID_of_def NamespaceUser_def
        spec_IntIdentifier_def digit_val_def spec_defs store_defs two_roots_def)
  have w: "SaveDashboard (dashboardStore ?svc) ?save two_roots = (Inr ?dash, ?s1)"
    and w': "SaveDashboard (dashboardStore failing_delete) ?save two_roots = (Inr ?dash, ?s1)"
    by (simp_all add: Let_def spec_defs store_defs two_roots_def)
  have r: "GetFolderByID (dashboardFolderStore ?svc) ?s1 (c_OrgID ?cmd) (dash_ID ?dash)
      = Inr (FromDashboard ?dash)"
    and r': "GetFolderByID (dashboardFolderStore failing_delete) ?s1 (c_OrgID ?cmd) (dash_ID ?dash)
      = Inr (FromDashboard ?dash)"
    by (simp_all add: spec_defs store_defs two_roots_def)
  have c: "nestedFolderCreate ?svc
           \<lparr>c_UID = dash_UID ?dash, c_OrgID = c_OrgID ?cmd, c_Title = c_Title ?cmd,
            c_Description = c_Description ?cmd, c_ParentUID = c_ParentUID ?cmd,
            c_SignedInUser = None\<rparr> ?s1 = (Inl ?err, ?s1)"
    and c': "nestedFolderCreate failing_delete
           \<lparr>c_UID = dash_UID ?dash, c_OrgID = c_OrgID ?cmd, c_Title = c_Title ?cmd,
            c_Description = c_Description ?cmd, c_ParentUID = c_ParentUID ?cmd,
            c_SignedInUser = None\<rparr> ?s1 = (Inl ?err, ?s1)"
    by (simp_all add: nestedFolderCreate_def validateParent_def spec_defs store_defs two_roots_def)
  from Create_rollback [OF u n a g b w r c]
  have 1: "Create ?svc ?cmd two_roots = ((Some (FromDashboard ?dash), Some ?err), two_roots)"
    by (simp add: spec_defs store_defs two_roots_def)
  from Create_rollback [OF u n a' g b' w' r' c']
  have 2: "fst (Create failing_delete ?cmd two_roots) = (Some (FromDashboard ?dash), Some ?err)"
    by simp
  from 1 2 show ?thesis
    by (simp add: FromDashboard_def)
qed

subsection \<open>The service over the two tables\<close>

lemma spec_service_sel [simp]:
  "store (spec_service col nf) = spec_store col"
  "dashboardStore (spec_service col nf) = spec_dashboardStore col"
  "dashboardFolderStore (spec_service col nf) = spec_dashboardFolderStore"
  "features (spec_service col nf) = nf"
  "accessControl (spec_service col nf) = (\<lambda>s user ev. col_Evaluate col user ev)"
  "pkg (spec_service col nf) = spec_pkg col"
  by (simp_all add: spec_service_def)

lemma spec_store_sel [simp]:
  "store_Get (spec_store col) = nested_Get"
  "store_GetChildren (spec_store col) = nested_GetChildren"
  "store_GetParents (spec_store col) = nested_GetParents"
  "store_GetHeight (spec_store col) = (\<lambda>s. col_GetHeight col (nested s))"
  "store_Create (spec_store col) = nested_Create"
  "store_Update (spec_store col) = nested_Update"
  "store_Delete (spec_store col) = nested_Delete"
  by (simp_all add: spec_store_def)

lemma spec_legacy_sel [simp]:
  "SaveDashboard (spec_dashboardStore col) = legacy_SaveDashboard col"
  "DeleteDashboard (spec_dashboardStore col) = legacy_DeleteDashboard"
  "GetDashboard (spec_dashboardStore col) = legacy_GetDashboard"
  "ValidateDashboardBeforeSave (spec_dashboardStore col) = legacy_ValidateDashboardBeforeSave"
  "GetFolderByUID spec_dashboardFolderStore = legacy_GetFolderByUID"
  "GetFolderByID spec_dashboardFolderStore = legacy_GetFolderByID"
  "GetFolderByTitle spec_dashboardFolderStore = legacy_GetFolderByTitle"
  "GetFolders spec_dashboardFolderStore = legacy_GetFolders"
  by (simp_all add: spec_dashboardStore_def spec_dashboardFolderStore_def)

lemma spec_pkg_sel [simp]:
  "guardian_NewByUID (spec_pkg col) = (\<lambda>s uid orgID user. col_guardianByUID col uid orgID user)"
  "guardian_NewByFolder (spec_pkg col) = (\<lambda>s f orgID user. col_guardianByUID col (UID f) orgID user)"
  by (simp_all add: spec_pkg_def)

subsection \<open>Delete\<close>

lemma Get_by_uid_found:
  assumes "Get (spec_service col nf)
             \<lparr>q_UID = Some u, q_ID = None, q_Title = None, q_OrgID = orgID,
              q_SignedInUser = Some user\<rparr> s = Inr x"
  shows "u \<noteq> [] \<and> find (folder_row orgID u) (legacy s) \<noteq> None"
  using assms
  by (auto simp: Get_def Get_lookup_def getFolderByUID_def legacy_GetFolderByUID_def
      split: if_splits option.splits sum.splits)

lemma Get_by_uid_missing:
  assumes "u \<noteq> []" and "find (folder_row orgID u) (legacy s) = None"
  shows "Get (spec_service col nf)
           \<lparr>q_UID = Some u, q_ID = None, q_Title = None, q_OrgID = orgID,
            q_SignedInUser = Some user\<rparr> s = Inl dashboards_ErrFolderNotFound"
  using assms
  by (simp add: Get_def Get_lookup_def getFolderByUID_def legacy_GetFolderByUID_def)

lemma removed_compose:
  assumes "removed orgID D1 s s1" and "removed orgID D2 s1 s2"
  shows "removed orgID (D1 \<union> D2) s s2"
proof -
  from assms have n: "nested s2 = filter (\<lambda>f. \<not> (OrgID f = orgID \<and> UID f \<in> D1 \<union> D2)) (nested s)"
    by (auto simp: removed_def intro: filter_cong)
  from assms have sub: "set (nested s2) \<subseteq> set (nested s1)"
    by (auto simp: removed_def)
  with assms n show ?thesis
    unfolding removed_def by auto
qed

lemma removed_descendant:
  assumes "descendant (nested s) orgID a u" and "removed orgID D s s'" and "a \<in> D"
  shows "u \<in> D"
  using assms
proof (induction rule: descendant.induct)
  case (child r)
  show ?case
  proof (rule ccontr)
    assume "UID r \<notin> D"
    with child have "r \<in> set (nested s')" by (simp add: removed_def)
    with child show False by (auto simp: removed_def)
  qed
next
  case (below p r)
  then have p: "p \<in> D" by simp
  show ?case
  proof (rule ccontr)
    assume "UID r \<notin> D"
    with below have "r \<in> set (nested s')" by (simp add: removed_def)
    with below p show False by (auto simp: removed_def)
  qed
qed

lemma removed_empty: "removed orgID {} s s"
  by (simp add: removed_def)

lemma nfd_loop:
  assumes P: "\<And>cmd s res s'. nestedFolderDelete n (spec_service col nf) cmd s = Some ((res, None), s')
                \<Longrightarrow> removed (d_OrgID cmd) (insert (d_UID cmd) (set res)) s s'"
    and "nestedFolderDelete_loop n (spec_service col nf) cmd fs acc s = Some ((res, None), s')"
    and "\<forall>f \<in> set fs. OrgID f = d_OrgID cmd"
  shows "\<exists>new. res = acc @ new \<and> UID ` set fs \<subseteq> set new \<and> removed (d_OrgID cmd) (set new) s s'"
  using assms(2,3)
proof (induction fs arbitrary: acc s)
  case Nil
  then show ?case by (simp add: removed_empty)
next
  case (Cons f fs)
  let ?cmdf = "\<lparr>d_UID = UID f, d_OrgID = OrgID f, d_ForceDeleteRules = d_ForceDeleteRules cmd,
                d_SignedInUser = d_SignedInUser cmd\<rparr>"
  from Cons.prems(1) obtain sub s1 where
    sub: "nestedFolderDelete n (spec_service col nf) ?cmdf s = Some ((sub, None), s1)"
    and rest: "nestedFolderDelete_loop n (spec_service col nf) cmd fs ((acc @ [UID f]) @ sub) s1
                 = Some ((res, None), s')"
    by (auto simp: Let_def split: option.splits prod.splits)
  from Cons.prems(2) have org: "OrgID f = d_OrgID cmd" and orgs: "\<forall>f \<in> set fs. OrgID f = d_OrgID cmd"
    by simp_all
  from P [OF sub] org have r1: "removed (d_OrgID cmd) (insert (UID f) (set sub)) s s1"
    by simp
  from Cons.IH [OF rest orgs] obtain new' where
    new': "res = ((acc @ [UID f]) @ sub) @ new'" "UID ` set fs \<subseteq> set new'"
      "removed (d_OrgID cmd) (set new') s1 s'"
    by blast
  from removed_compose [OF r1 new'(3)]
  have "removed (d_OrgID cmd) (set ([UID f] @ sub @ new')) s s'"
    by (simp add: Un_commute insert_commute)
  with new' show ?case
    by (intro exI [of _ "[UID f] @ sub @ new'"]) auto
qed

lemma nfd:
  "nestedFolderDelete n (spec_service col nf) cmd s = Some ((res, None), s')
     \<Longrightarrow> removed (d_OrgID cmd) (insert (d_UID cmd) (set res)) s s'"
proof (induction n arbitrary: cmd s res s')
  case 0
  then show ?case by simp
next
  case (Suc n)
  let ?org = "d_OrgID cmd" and ?uid = "d_UID cmd"
  let ?fs = "children (nested s) ?org ?uid"
  from Suc.prems obtain user x s1 where
    user: "d_SignedInUser cmd = Some user"
    and get: "Get (spec_service col nf)
               \<lparr>q_UID = Some ?uid, q_ID = None, q_Title = None, q_OrgID = ?org,
                q_SignedInUser = Some user\<rparr> s = Inr x"
    and loop: "nestedFolderDelete_loop n (spec_service col nf) cmd ?fs [] s = Some ((res, None), s1)"
    and del: "nested_Delete ?uid ?org s1 = (None, s')"
    by (auto simp: nested_GetChildren_def split: option.splits sum.splits prod.splits)
  have orgs: "\<forall>f \<in> set ?fs. OrgID f = ?org"
    by (simp add: children_def)
  from nfd_loop [OF Suc.IH loop orgs] have
    kids: "UID ` set ?fs \<subseteq> set res" and r: "removed ?org (set res) s s1"
    by auto
  from del have s': "s' = s1\<lparr>nested := filter (\<lambda>f. \<not> folder_key ?org ?uid f) (nested s1)\<rparr>"
    by (simp add: nested_Delete_def)
  from Get_by_uid_found [OF get] have uid: "?uid \<noteq> []" "find (folder_row ?org ?uid) (legacy s) \<noteq> None"
    by simp_all
  have 1: "legacy s' = legacy s"
    using r s' by (simp add: removed_def)
  have 2: "nested s' = filter (\<lambda>f. \<not> (OrgID f = ?org \<and> UID f \<in> insert ?uid (set res))) (nested s)"
    using r s' by (auto simp: removed_def folder_key_def intro: filter_cong)
  have 3: "\<forall>f \<in> set (nested s'). OrgID f = ?org \<longrightarrow> ParentUID f \<notin> insert ?uid (set res)"
  proof (intro ballI impI)
    fix f assume f: "f \<in> set (nested s')" and o: "OrgID f = ?org"
    from f s' have f1: "f \<in> set (nested s1)" by simp
    with r o have a: "ParentUID f \<notin> set res" by (simp add: removed_def)
    have b: "ParentUID f \<noteq> ?uid"
    proof
      assume p: "ParentUID f = ?uid"
      from f1 r have "f \<in> set (nested s)" by (simp add: removed_def)
      with o p have "f \<in> set ?fs" by (simp add: children_def)
      with kids have "UID f \<in> set res" by auto
      with f1 r o show False by (simp add: removed_def)
    qed
    from a b show "ParentUID f \<notin> insert ?uid (set res)" by simp
  qed
  have 4: "\<forall>u \<in> insert ?uid (set res). u \<noteq> [] \<and> find (folder_row ?org u) (legacy s) \<noteq> None"
    using uid r by (simp add: removed_def)
  from 1 2 3 4 show ?case
    unfolding removed_def by blast
qed

lemma deleteChildrenInFolder_loop_spec:
  "snd (deleteChildrenInFolder_loop
          (map (\<lambda>(kind, h). (kind, (\<lambda>orgID uid user s. (h orgID uid user, s)))) hs)
          orgID uid user s) = s"
proof (induction hs)
  case Nil
  then show ?case by simp
next
  case (Cons a hs)
  obtain kind h where a: "a = (kind, h)" by (cases a)
  show ?case
  proof (cases "h orgID uid user")
    case None
    with a Cons show ?thesis by simp
  next
    case (Some e)
    with a show ?thesis by simp
  qed
qed

lemma deleteChildrenInFolder_spec:
  "snd (deleteChildrenInFolder (spec_service col nf) orgID uid user s) = s"
  by (simp add: deleteChildrenInFolder_def spec_service_def deleteChildrenInFolder_loop_spec)

lemma distinct_key_eq:
  assumes "distinct (map (\<lambda>d. (dash_OrgID d, dash_UID d)) L)" and "r \<in> set L" and "d \<in> set L"
    and "dash_OrgID d = dash_OrgID r" and "dash_UID d = dash_UID r"
  shows "d = r"
proof -
  from assms(1) have inj: "inj_on (\<lambda>d. (dash_OrgID d, dash_UID d)) (set L)"
    by (simp add: distinct_map)
  show ?thesis
    by (rule inj_onD [OF inj]) (simp_all add: assms)
qed

lemma Delete_loop_spec:
  assumes "distinct (map (\<lambda>d. (dash_OrgID d, dash_UID d)) L)"
    and "Delete_loop (spec_service col nf) cmd user m us s = (None, s')"
    and "set (legacy s) \<subseteq> set L"
    and "\<forall>u \<in> set us. \<exists>r \<in> set L. folder_row (d_OrgID cmd) u r \<and> m u = Some (FromDashboard r)"
  shows "nested s' = nested s \<and> set (legacy s') \<subseteq> set (legacy s)
       \<and> (\<forall>u \<in> set us. \<forall>d \<in> set (legacy s'). \<not> (dash_OrgID d = d_OrgID cmd \<and> dash_UID d = u))"
  using assms(2-4)
proof (induction us arbitrary: s)
  case Nil
  then show ?case by simp
next
  case (Cons u us)
  from Cons.prems(3) obtain r where r: "r \<in> set L" "folder_row (d_OrgID cmd) u r"
    "m u = Some (FromDashboard r)"
    by auto
  let ?s1 = "if d_ForceDeleteRules cmd
             then snd (deleteChildrenInFolder (spec_service col nf) (OrgID (FromDashboard r))
                         (UID (FromDashboard r)) user s)
             else s"
  have s1: "?s1 = s"
    by (simp add: deleteChildrenInFolder_spec)
  from Cons.prems(1) r(3) obtain s2 where
    del: "legacyDelete (spec_service col nf) cmd (FromDashboard r) s = (None, s2)"
    and rest: "Delete_loop (spec_service col nf) cmd user m us s2 = (None, s')"
    using deleteChildrenInFolder_spec [of col nf "OrgID (FromDashboard r)" "UID (FromDashboard r)" user s]
    by (auto split: if_splits option.splits prod.splits)
  from del have s2: "s2 = s\<lparr>legacy := filter (\<lambda>d. \<not> (dash_ID d = dash_ID r \<and> dash_OrgID d = d_OrgID cmd))
                                          (legacy s)\<rparr>"
    by (auto simp: legacyDelete_def legacy_DeleteDashboard_def FromDashboard_def Let_def
        split: if_splits prod.splits option.splits)
  with Cons.prems(2) have sub2: "set (legacy s2) \<subseteq> set L"
    by auto
  from Cons.prems(3) have us: "\<forall>u \<in> set us. \<exists>r \<in> set L. folder_row (d_OrgID cmd) u r
      \<and> m u = Some (FromDashboard r)"
    by simp
  from Cons.IH [OF rest sub2 us] have ih: "nested s' = nested s2" "set (legacy s') \<subseteq> set (legacy s2)"
    "\<forall>u \<in> set us. \<forall>d \<in> set (legacy s'). \<not> (dash_OrgID d = d_OrgID cmd \<and> dash_UID d = u)"
    by auto
  have "\<forall>d \<in> set (legacy s'). \<not> (dash_OrgID d = d_OrgID cmd \<and> dash_UID d = u)"
  proof (intro ballI notI)
    fix d assume d: "d \<in> set (legacy s')" and k: "dash_OrgID d = d_OrgID cmd \<and> dash_UID d = u"
    from d ih(2) have d2: "d \<in> set (legacy s2)" by auto
    with sub2 have "d \<in> set L" by auto
    with r k assms(1) have "d = r"
      by (intro distinct_key_eq [of L]) (auto simp: folder_row_def)
    with d2 s2 k show False by simp
  qed
  with ih s2 show ?case by auto
qed

lemma no_key_find:
  assumes "\<forall>d \<in> set (legacy s). \<not> (dash_OrgID d = orgID \<and> dash_UID d = u)"
  shows "find (folder_row orgID u) (legacy s) = None"
  using assms by (auto simp: find_None_iff folder_row_def)

lemma Delete_success:
  assumes "Delete n svc cmd s = Some (None, s')"
  obtains user guard where "d_SignedInUser cmd = Some user" "d_UID cmd \<noteq> []" "\<not> d_OrgID cmd < 1"
    "guardian_NewByUID (pkg svc) s (d_UID cmd) (d_OrgID cmd) user = Inr guard"
    "CanDelete guard = Inr True" "Delete_body n svc cmd user s = Some (Inr (), s')"
proof -
  from assms obtain user where u: "d_SignedInUser cmd = Some user"
    by (cases "d_SignedInUser cmd") (auto simp: Delete_def)
  from assms u have uid: "d_UID cmd \<noteq> []" and org: "\<not> d_OrgID cmd < 1"
    by (auto simp: Delete_def split: if_splits)
  from assms u uid org obtain guard where
    g: "guardian_NewByUID (pkg svc) s (d_UID cmd) (d_OrgID cmd) user = Inr guard"
    by (cases "guardian_NewByUID (pkg svc) s (d_UID cmd) (d_OrgID cmd) user")
       (auto simp: Delete_def)
  from assms u uid org g have c: "CanDelete guard = Inr True"
    by (cases "CanDelete guard") (auto simp: Delete_def split: if_splits)
  from assms u uid org g c obtain outcome where
    o: "Delete_body n svc cmd user s = Some outcome"
    by (cases "Delete_body n svc cmd user s") (auto simp: Delete_def)
  obtain r s2 where rs: "outcome = (r, s2)" by (cases outcome)
  from assms u uid org g c o rs have "r = Inr () \<and> s2 = s'"
    by (cases r) (auto simp: Delete_def InTransaction_def)
  with o rs have "Delete_body n svc cmd user s = Some (Inr (), s')" by simp
  with u uid org g c show ?thesis by (rule that)
qed

lemma Delete_body_success:
  assumes "Delete_body n svc cmd user s = Some (Inr (), s')"
  obtains res s1 m where "nestedFolderDelete n svc cmd s = Some ((res, None), s1)"
    "GetFolders (dashboardFolderStore svc) s1 (d_OrgID cmd) (d_UID cmd # res) = Inr m"
    "Delete_loop svc cmd user m (d_UID cmd # res) s1 = (None, s')"
proof -
  from assms obtain out where o: "nestedFolderDelete n svc cmd s = Some out"
    by (cases "nestedFolderDelete n svc cmd s") (auto simp: Delete_body_def)
  obtain res e s1 where out: "out = ((res, e), s1)" by (cases out) auto
  from assms o out have e: "e = None"
    by (cases e) (auto simp: Delete_body_def)
  from assms o out e obtain m where
    m: "GetFolders (dashboardFolderStore svc) s1 (d_OrgID cmd) (d_UID cmd # res) = Inr m"
    by (cases "GetFolders (dashboardFolderStore svc) s1 (d_OrgID cmd) (d_UID cmd # res)")
       (auto simp: Delete_body_def)
  obtain le s2 where l: "Delete_loop svc cmd user m (d_UID cmd # res) s1 = (le, s2)"
    by (cases "Delete_loop svc cmd user m (d_UID cmd # res) s1")
  from assms o out e m l have "le = None \<and> s2 = s'"
    by (cases le) (auto simp: Delete_body_def)
  with l have "Delete_loop svc cmd user m (d_UID cmd # res) s1 = (None, s')" by simp
  with o out e m show ?thesis by (intro that) auto
qed

text \<open>
  C3. Over the two tables with unique legacy keys: when \<open>Delete\<close> succeeds, the folder
  and every descendant it had in the nested table have no row left in the legacy
  table and none in the nested table, \<open>Get\<close> by UID answers folder-not-found for each
  of them, and a second \<open>Delete\<close> of the same command answers folder-not-found and
  leaves the state as it is.
\<close>

theorem Delete_removes_subtree:
  assumes "distinct (legacy_keys s)"
    and "Delete n (spec_service col nf) cmd s = Some (None, s')"
  shows "(\<forall>u. u = d_UID cmd \<or> descendant (nested s) (d_OrgID cmd) (d_UID cmd) u \<longrightarrow>
             (\<forall>d \<in> set (legacy s'). \<not> (dash_OrgID d = d_OrgID cmd \<and> dash_UID d = u))
           \<and> (\<forall>f \<in> set (nested s'). \<not> (OrgID f = d_OrgID cmd \<and> UID f = u))
           \<and> (\<forall>user. Get (spec_service col nf)
                         \<lparr>q_UID = Some u, q_ID = None, q_Title = None, q_OrgID = d_OrgID cmd,
                          q_SignedInUser = Some user\<rparr> s' = Inl dashboards_ErrFolderNotFound))
       \<and> (\<forall>m. Delete (Suc m) (spec_service col nf) cmd s'
                  = Some (Some dashboards_ErrFolderNotFound, s'))"
proof -
  let ?svc = "spec_service col nf"
  let ?org = "d_OrgID cmd" and ?uid = "d_UID cmd"
  from assms(2) obtain user guard where
    user: "d_SignedInUser cmd = Some user" and uid: "?uid \<noteq> []" and org: "\<not> ?org < 1"
    and guard: "guardian_NewByUID (pkg ?svc) s ?uid ?org user = Inr guard"
    and can: "CanDelete guard = Inr True"
    and body: "Delete_body n ?svc cmd user s = Some (Inr (), s')"
    by (rule Delete_success)
  from body obtain res s1 m where
    nd: "nestedFolderDelete n ?svc cmd s = Some ((res, None), s1)"
    and m: "GetFolders (dashboardFolderStore ?svc) s1 ?org (?uid # res) = Inr m"
    and loop: "Delete_loop ?svc cmd user m (?uid # res) s1 = (None, s')"
    by (rule Delete_body_success)
  let ?D = "insert ?uid (set res)"
  from nfd [OF nd] have rem: "removed ?org ?D s s1" .
  then have leg1: "legacy s1 = legacy s" by (simp add: removed_def)
  from m have m_def: "m = (\<lambda>u. if u \<in> set (?uid # res)
       then map_option FromDashboard (find (folder_row ?org u) (legacy s1)) else None)"
    by (simp add: legacy_GetFolders_def)
  have rows: "\<forall>u \<in> set (?uid # res). \<exists>r \<in> set (legacy s). folder_row ?org u r
      \<and> m u = Some (FromDashboard r)"
  proof
    fix u assume u: "u \<in> set (?uid # res)"
    with rem have "find (folder_row ?org u) (legacy s) \<noteq> None"
      by (auto simp: removed_def)
    then obtain r where r: "find (folder_row ?org u) (legacy s) = Some r" by auto
    then have "r \<in> set (legacy s) \<and> folder_row ?org u r"
      by (auto simp: find_Some_iff)
    with r u leg1 m_def show "\<exists>r \<in> set (legacy s). folder_row ?org u r \<and> m u = Some (FromDashboard r)"
      by auto
  qed
  from assms(1) have dist: "distinct (map (\<lambda>d. (dash_OrgID d, dash_UID d)) (legacy s))"
    by (simp add: legacy_keys_def)
  from leg1 have sub: "set (legacy s1) \<subseteq> set (legacy s)" by simp
  from Delete_loop_spec [OF dist loop sub rows] have
    nest: "nested s' = nested s1"
    and gone: "\<forall>u \<in> set (?uid # res). \<forall>d \<in> set (legacy s'). \<not> (dash_OrgID d = ?org \<and> dash_UID d = u)"
    by auto
  have part1: "\<forall>u. u = ?uid \<or> descendant (nested s) ?org ?uid u \<longrightarrow>
             (\<forall>d \<in> set (legacy s'). \<not> (dash_OrgID d = ?org \<and> dash_UID d = u))
           \<and> (\<forall>f \<in> set (nested s'). \<not> (OrgID f = ?org \<and> UID f = u))
           \<and> (\<forall>user. Get ?svc \<lparr>q_UID = Some u, q_ID = None, q_Title = None, q_OrgID = ?org,
                          q_SignedInUser = Some user\<rparr> s' = Inl dashboards_ErrFolderNotFound)"
  proof (intro allI impI)
    fix u assume "u = ?uid \<or> descendant (nested s) ?org ?uid u"
    then have uD: "u \<in> ?D"
      using removed_descendant [OF _ rem, of ?uid u] by auto
    then have a: "\<forall>d \<in> set (legacy s'). \<not> (dash_OrgID d = ?org \<and> dash_UID d = u)"
      using gone by auto
    from uD rem nest have b: "\<forall>f \<in> set (nested s'). \<not> (OrgID f = ?org \<and> UID f = u)"
      by (auto simp: removed_def)
    from uD rem have ne: "u \<noteq> []" by (auto simp: removed_def)
    from no_key_find [OF a] ne
    have c: "\<forall>user. Get ?svc \<lparr>q_UID = Some u, q_ID = None, q_Title = None, q_OrgID = ?org,
                          q_SignedInUser = Some user\<rparr> s' = Inl dashboards_ErrFolderNotFound"
      by (simp add: Get_by_uid_missing)
    from a b c show "(\<forall>d \<in> set (legacy s'). \<not> (dash_OrgID d = ?org \<and> dash_UID d = u))
           \<and> (\<forall>f \<in> set (nested s'). \<not> (OrgID f = ?org \<and> UID f = u))
           \<and> (\<forall>user. Get ?svc \<lparr>q_UID = Some u, q_ID = None, q_Title = None, q_OrgID = ?org,
                          q_SignedInUser = Some user\<rparr> s' = Inl dashboards_ErrFolderNotFound)"
      by blast
  qed
  have part2: "\<forall>m. Delete (Suc m) ?svc cmd s' = Some (Some dashboards_ErrFolderNotFound, s')"
  proof
    fix k
    from gone have "\<forall>d \<in> set (legacy s'). \<not> (dash_OrgID d = ?org \<and> dash_UID d = ?uid)"
      by auto
    from no_key_find [OF this] uid
    have "Get ?svc \<lparr>q_UID = Some ?uid, q_ID = None, q_Title = None, q_OrgID = ?org,
                     q_SignedInUser = Some user\<rparr> s' = Inl dashboards_ErrFolderNotFound"
      by (simp add: Get_by_uid_missing)
    with user have "nestedFolderDelete (Suc k) ?svc cmd s'
        = Some (([], Some dashboards_ErrFolderNotFound), s')"
      by simp
    then have "Delete_body (Suc k) ?svc cmd user s' = Some (Inl dashboards_ErrFolderNotFound, s')"
      by (simp add: Delete_body_def)
    moreover from guard have "guardian_NewByUID (pkg ?svc) s' ?uid ?org user = Inr guard"
      by simp
    ultimately show "Delete (Suc k) ?svc cmd s' = Some (Some dashboards_ErrFolderNotFound, s')"
      using user uid org can by (simp add: Delete_def InTransaction_def)
  qed
  from part1 part2 show ?thesis by blast
qed

theorem Delete_removes_subtree_witness:
  "distinct (legacy_keys short_chain)
   \<and> Delete 5 (spec_service allow_all True) (delete_of ''f'') short_chain = Some (None, only_g)
   \<and> descendant (nested short_chain) 1 ''f'' ''b''
   \<and> Get (spec_service allow_all True) (by_uid ''b'') only_g = Inl dashboards_ErrFolderNotFound
   \<and> Delete 1 (spec_service allow_all True) (delete_of ''f'') only_g
       = Some (Some dashboards_ErrFolderNotFound, only_g)"
proof -
  let ?svc = "spec_service allow_all True"
  have k: "distinct (legacy_keys short_chain)"
    by (simp add: legacy_keys_def short_chain_def row_of_def)
  have del: "Delete 5 ?svc (delete_of ''f'') short_chain = Some (None, only_g)"
    by code_simp
  have d1: "descendant (nested short_chain) 1 ''f'' (UID (folder_of 12 ''a'' ''f''))"
    by (rule descendant.child) (simp_all add: short_chain_def folder_of_def)
  have d2: "descendant (nested short_chain) 1 ''f'' (UID (folder_of 13 ''b'' ''a''))"
    by (rule descendant.below [OF d1]) (simp_all add: short_chain_def folder_of_def)
  then have d: "descendant (nested short_chain) (d_OrgID (delete_of ''f'')) (d_UID (delete_of ''f'')) ''b''"
    by (simp add: delete_of_def folder_of_def)
  from Delete_removes_subtree [OF k del] d
  have "Get ?svc \<lparr>q_UID = Some ''b'', q_ID = None, q_Title = None,
                   q_OrgID = d_OrgID (delete_of ''f''), q_SignedInUser = Some alice\<rparr> only_g
          = Inl dashboards_ErrFolderNotFound
        \<and> Delete (Suc 0) ?svc (delete_of ''f'') only_g
            = Some (Some dashboards_ErrFolderNotFound, only_g)"
    by blast
  with k del d show ?thesis
    by (simp add: delete_of_def by_uid_def)
qed

subsection \<open>Update and the parent pointer\<close>

lemma legacy_SaveDashboard_nested:
  "nested (snd (legacy_SaveDashboard col c s)) = nested s"
  by (simp add: legacy_SaveDashboard_def Let_def split: option.splits)

lemma nested_Update_parent:
  assumes "u_NewParentUID c = None"
  shows "map (\<lambda>f. (OrgID f, UID f, ParentUID f)) (nested (snd (nested_Update c s)))
       = map (\<lambda>f. (OrgID f, UID f, ParentUID f)) (nested s)"
  using assms by (simp add: nested_Update_def Let_def split: option.splits)

lemma legacyUpdate_nested:
  assumes save: "\<And>c s. nested (snd (SaveDashboard (dashboardStore svc) c s)) = nested s"
    and pub: "\<And>e s. nested (snd (bus svc e s)) = nested s"
  shows "nested (snd (legacyUpdate svc cmd s)) = nested s"
proof -
  have aux: "nested s1 = nested s" if "SaveDashboard (dashboardStore svc) c s = (r, s1)" for c s r s1
    using save [of c s] that by simp
  show ?thesis
    unfolding legacyUpdate_def Let_def
    by (auto split: sum.split option.split prod.split split del: if_split cong: if_cong
        simp: pub if_distrib [of snd] if_distrib [of nested] dest: aux)
qed

text \<open>
  C9. Over the two tables, for every \<open>Update\<close> command and every state: the nested
  table after the call has the same rows by org and UID with the same parent
  pointers as before, whatever \<open>NewParentUID\<close> the command carries. The command that
  \<open>Update\<close> passes to the nested store has no new parent.
\<close>

theorem Update_keeps_nested_parent:
  "map (\<lambda>f. (OrgID f, UID f, ParentUID f)) (nested (snd (Update (spec_service col nf) cmd s)))
     = map (\<lambda>f. (OrgID f, UID f, ParentUID f)) (nested s)"
proof -
  let ?svc = "spec_service col nf"
  have l: "\<And>c s. nested (snd (legacyUpdate ?svc c s)) = nested s"
    by (rule legacyUpdate_nested) (simp_all add: legacy_SaveDashboard_nested spec_service_def)
  show ?thesis
  proof (cases "u_SignedInUser cmd")
    case None
    then show ?thesis by (simp add: Update_def)
  next
    case (Some user)
    obtain r s1 where lu: "legacyUpdate ?svc cmd s = (r, s1)" by (cases "legacyUpdate ?svc cmd s")
    with l [of cmd s] have n1: "nested s1 = nested s" by simp
    show ?thesis
    proof (cases r)
      case (Inl e)
      with Some lu n1 show ?thesis by (simp add: Update_def)
    next
      case (Inr dashFolder)
      let ?c = "\<lparr>u_UID = u_UID cmd, u_OrgID = u_OrgID cmd, u_NewTitle = u_NewTitle cmd,
                 u_NewDescription = u_NewDescription cmd, u_NewParentUID = None,
                 u_Version = 0, u_Overwrite = False, u_SignedInUser = Some user\<rparr>"
      obtain r2 s2 where nu: "nested_Update ?c s1 = (r2, s2)" by (cases "nested_Update ?c s1")
      have "snd (Update ?svc cmd s) = s2"
        using Some lu Inr nu by (cases r2) (simp_all add: Update_def)
      with nested_Update_parent [of ?c s1] n1 nu show ?thesis by simp
    qed
  qed
qed

theorem Update_keeps_nested_parent_witness:
  "map (\<lambda>f. (OrgID f, UID f, ParentUID f))
       (nested (snd (Update (spec_service allow_all True) reparent_b two_roots)))
     = [(1, ''a'', []), (1, ''b'', [])]
   \<and> map (\<lambda>d. (dash_UID d, dash_FolderUID d))
         (legacy (snd (Update (spec_service allow_all True) reparent_b two_roots)))
       = [(''a'', []), (''b'', ''a'')]"
proof -
  have 1: "map (\<lambda>d. (dash_UID d, dash_FolderUID d))
         (legacy (snd (Update (spec_service allow_all True) reparent_b two_roots)))
       = [(''a'', []), (''b'', ''a'')]"
    by code_simp
  from Update_keeps_nested_parent [of allow_all True reparent_b two_roots] 1
  show ?thesis by (simp add: two_roots_def folder_of_def)
qed

subsection \<open>The cycle loop of Move\<close>

lemma find_key_unique:
  assumes "distinct (map (\<lambda>f. (OrgID f, UID f)) rows)" and "r \<in> set rows"
  shows "find (folder_key (OrgID r) (UID r)) rows = Some r"
  using assms
proof (induction rows)
  case Nil
  then show ?case by simp
next
  case (Cons x rows)
  show ?case
  proof (cases "folder_key (OrgID r) (UID r) x")
    case True
    with Cons.prems have "x = r"
      by (force simp: folder_key_def)
    with True show ?thesis by simp
  next
    case False
    with Cons show ?thesis by (auto simp: folder_key_def)
  qed
qed

lemma is_path_Cons:
  "is_path rows orgID (r # xs) a \<Longrightarrow> r \<in> set rows \<and> OrgID r = orgID"
  by (cases xs) auto

lemma is_path_extend:
  assumes "is_path rows orgID ys a" and "r \<in> set rows" and "OrgID r = orgID"
    and "ParentUID r = UID (hd ys)" and "UID (hd ys) \<noteq> []"
  shows "is_path rows orgID (r # ys) a"
  using assms by (cases ys) auto

lemma is_path_suffix:
  "is_path rows orgID (xs @ ys) a \<Longrightarrow> ys \<noteq> [] \<Longrightarrow> is_path rows orgID ys a"
proof (induction xs)
  case Nil
  then show ?case by simp
next
  case (Cons x xs)
  show ?case
  proof (cases "xs @ ys")
    case Nil
    with Cons.prems show ?thesis by simp
  next
    case (Cons z zs)
    with Cons.prems(1) have "is_path rows orgID (xs @ ys) a" by simp
    with Cons.IH Cons.prems(2) show ?thesis by simp
  qed
qed

lemma descendant_path:
  assumes "descendant rows orgID a u"
  shows "\<exists>xs. is_path rows orgID xs a \<and> UID (hd xs) = u"
  using assms
proof (induction rule: descendant.induct)
  case (child r)
  then have "is_path rows orgID [r] a" by simp
  then show ?case by (intro exI [of _ "[r]"]) simp
next
  case (below p r)
  then obtain xs where xs: "is_path rows orgID xs a" "UID (hd xs) = p" by blast
  with below have "is_path rows orgID (r # xs) a"
    by (intro is_path_extend) simp_all
  then show ?case by (intro exI [of _ "r # xs"]) simp
qed

lemma distinct_map_dropWhile: "distinct (map f ys) \<Longrightarrow> distinct (map f (dropWhile P ys))"
  by (induction ys) auto

lemma path_distinct:
  assumes "is_path rows orgID xs a"
  shows "\<exists>ys. is_path rows orgID ys a \<and> UID (hd ys) = UID (hd xs) \<and> distinct (map UID ys)"
  using assms
proof (induction rows orgID xs a rule: is_path.induct)
  case (1 rows orgID a)
  then show ?case by simp
next
  case (2 rows orgID r a)
  then show ?case by (intro exI [of _ "[r]"]) simp
next
  case (3 rows orgID r r' xs a)
  then obtain ys where ys: "is_path rows orgID ys a" "UID (hd ys) = UID r'" "distinct (map UID ys)"
    by auto
  show ?case
  proof (cases "UID r \<in> UID ` set ys")
    case False
    from 3 ys have "is_path rows orgID (r # ys) a"
      by (intro is_path_extend) simp_all
    with False ys show ?thesis
      by (intro exI [of _ "r # ys"]) simp
  next
    case True
    let ?zs = "dropWhile (\<lambda>y. UID y \<noteq> UID r) ys"
    from True have ne: "?zs \<noteq> []"
      by (auto simp: dropWhile_eq_Nil_conv)
    then have hd: "UID (hd ?zs) = UID r"
      using hd_dropWhile [of "\<lambda>y. UID y \<noteq> UID r" ys] by simp
    have "ys = takeWhile (\<lambda>y. UID y \<noteq> UID r) ys @ ?zs" by simp
    with ys(1) have "is_path rows orgID (takeWhile (\<lambda>y. UID y \<noteq> UID r) ys @ ?zs) a" by simp
    from is_path_suffix [OF this ne] have p: "is_path rows orgID ?zs a" .
    from ys(3) have "distinct (map UID ?zs)"
      by (rule distinct_map_dropWhile)
    with p hd show ?thesis
      by (intro exI [of _ ?zs]) simp
  qed
qed


lemma path_length:
  assumes "is_path rows orgID xs a" and "distinct (map UID xs)"
  shows "length xs \<le> length rows"
proof -
  have sub: "set xs \<subseteq> set rows"
    using assms(1)
  proof (induction rows orgID xs a rule: is_path.induct)
    case (3 rows orgID r r' xs a)
    then show ?case by auto
  qed simp_all
  from assms(2) have "distinct xs" by (simp add: distinct_map)
  then have "length xs = card (set xs)" by (simp add: distinct_card)
  also from sub have "\<dots> \<le> card (set rows)" by (intro card_mono) simp_all
  also have "\<dots> \<le> length rows" by (rule card_length)
  finally show ?thesis .
qed

lemma path_in_ancestors:
  assumes "is_path rows orgID xs a" and "distinct (map (\<lambda>f. (OrgID f, UID f)) rows)"
    and "find (folder_key orgID a) rows = Some fr" and "length xs \<le> n"
  shows "a \<in> UID ` set (ancestors n rows orgID (ParentUID (hd xs)))"
  using assms
proof (induction rows orgID xs a arbitrary: n rule: is_path.induct)
  case (1 rows orgID a)
  then show ?case by simp
next
  case (2 rows orgID r a)
  then obtain m where n: "n = Suc m" by (cases n) auto
  from 2 have "UID fr = a"
    by (auto simp: find_Some_iff folder_key_def)
  with 2 n show ?case by force
next
  case (3 rows orgID r r' xs a)
  then obtain m where n: "n = Suc m" and m: "length (r' # xs) \<le> m" by (cases n) auto
  from 3 have r': "r' \<in> set rows" "OrgID r' = orgID"
    using is_path_Cons [of rows orgID r' xs a] by auto
  with find_key_unique [OF "3.prems"(2) r'(1)]
  have f: "find (folder_key orgID (UID r')) rows = Some r'" by simp
  from "3.prems"(1) have p: "is_path rows orgID (r' # xs) a" by simp
  from "3.IH" [OF p "3.prems"(2) "3.prems"(3) m]
  have "a \<in> UID ` set (ancestors m rows orgID (ParentUID r'))" by simp
  with 3 n f show ?case by force
qed

lemma descendant_in_ancestors:
  assumes "descendant rows orgID a u" and "distinct (map (\<lambda>f. (OrgID f, UID f)) rows)"
    and "find (folder_key orgID a) rows = Some fr" and "find (folder_key orgID u) rows = Some row"
  shows "a \<in> UID ` set (ancestors (length rows) rows orgID (ParentUID row))"
proof -
  from descendant_path [OF assms(1)] obtain xs where
    xs: "is_path rows orgID xs a" "UID (hd xs) = u" by blast
  from path_distinct [OF xs(1)] xs(2) obtain ys where
    ys: "is_path rows orgID ys a" "UID (hd ys) = u" "distinct (map UID ys)" by auto
  from ys(1) obtain y zs where yz: "ys = y # zs" by (cases ys) auto
  with ys(1) have "y \<in> set rows" "OrgID y = orgID"
    using is_path_Cons [of rows orgID y zs a] by auto
  with find_key_unique [OF assms(2) this(1)] ys(2) yz assms(4) have "row = hd ys"
    by simp
  with path_in_ancestors [OF ys(1) assms(2,3) path_length [OF ys(1) ys(3)]]
  show ?thesis by simp
qed

text \<open>
  The loop of \<open>Move\<close> over the ancestors of the destination. Over the two tables with
  unique nested keys, for a folder that has a nested row and a destination that is
  one of its proper descendants: whatever height query the store has, once it answers
  with a height and the depth check passes, \<open>Move\<close> returns CircularReference and
  leaves the state as it is. An error of the height query is returned as it is, and
  a failing depth check is answered before the loop.
\<close>

lemma Move_cycle_loop:
  assumes "m_SignedInUser cmd = Some user"
    and "col_Evaluate col user
           (EvalPermission ActionFoldersWrite [GetResourceScopeUID (m_NewParentUID cmd)]) = Inr True"
    and "m_NewParentUID cmd \<noteq> []"
    and "descendant (nested s) (m_OrgID cmd) (m_UID cmd) (m_NewParentUID cmd)"
    and "distinct (nested_keys s)"
    and "find (folder_key (m_OrgID cmd) (m_UID cmd)) (nested s) = Some fr"
    and "col_GetHeight col (nested s) (m_UID cmd) (m_OrgID cmd) (Some (m_NewParentUID cmd)) = Inr h"
    and "store_GetParents (spec_store col) s \<lparr>gp_UID = m_NewParentUID cmd, gp_OrgID = m_OrgID cmd\<rparr>
           = Inr ps"
    and "sint (h + word_of_nat (length ps) + 2) \<le> 8"
  shows "Move (spec_service col nf) cmd s = (Inl (ErrCircularReference ''failed to move folder''), s)"
proof -
  let ?rows = "nested s" and ?org = "m_OrgID cmd" and ?d = "m_NewParentUID cmd"
  from assms(5) have dist: "distinct (map (\<lambda>f. (OrgID f, UID f)) ?rows)"
    by (simp add: nested_keys_def)
  from assms(4) obtain r where "r \<in> set ?rows" "OrgID r = ?org" "UID r = ?d"
    by (cases rule: descendant.cases) auto
  with find_key_unique [OF dist this(1)]
  obtain row where row: "find (folder_key ?org ?d) ?rows = Some row"
    by auto
  from descendant_in_ancestors [OF assms(4) dist assms(6) row]
  have anc: "m_UID cmd \<in> UID ` set (ancestors (length ?rows) ?rows ?org (ParentUID row))" .
  from assms(8) assms(3) row have ps: "ps = rev (ancestors (length ?rows) ?rows ?org (ParentUID row))"
    by (simp add: nested_GetParents_def)
  with anc have hit: "\<exists>parent \<in> set ps. UID parent = m_UID cmd"
    by auto
  from assms(1,2,3,7,8,9) hit show ?thesis
    by (simp add: Move_def Let_def MaxNestedFolderDepth_def)
qed

text \<open>
  With such a destination \<open>Move\<close> never goes through, whatever the height query
  answers: the result is an error, the one of the height query, MaxDepthReached or
  CircularReference, and the state is the one before the call.
\<close>

lemma Move_under_descendant_rejected:
  assumes "m_SignedInUser cmd = Some user"
    and "col_Evaluate col user
           (EvalPermission ActionFoldersWrite [GetResourceScopeUID (m_NewParentUID cmd)]) = Inr True"
    and "m_NewParentUID cmd \<noteq> []"
    and "descendant (nested s) (m_OrgID cmd) (m_UID cmd) (m_NewParentUID cmd)"
    and "distinct (nested_keys s)"
    and "find (folder_key (m_OrgID cmd) (m_UID cmd)) (nested s) = Some fr"
  shows "\<exists>err. Move (spec_service col nf) cmd s = (Inl err, s)"
proof (cases "col_GetHeight col (nested s) (m_UID cmd) (m_OrgID cmd) (Some (m_NewParentUID cmd))")
  case (Inl err)
  with assms(1,2,3) show ?thesis
    by (simp add: Move_def Let_def)
next
  case (Inr h)
  let ?rows = "nested s" and ?org = "m_OrgID cmd" and ?d = "m_NewParentUID cmd"
  from assms(5) have dist: "distinct (map (\<lambda>f. (OrgID f, UID f)) ?rows)"
    by (simp add: nested_keys_def)
  from assms(4) obtain r where "r \<in> set ?rows" "OrgID r = ?org" "UID r = ?d"
    by (cases rule: descendant.cases) auto
  with find_key_unique [OF dist this(1)]
  obtain row where row: "find (folder_key ?org ?d) ?rows = Some row"
    by auto
  with assms(3) obtain ps where
    ps: "store_GetParents (spec_store col) s \<lparr>gp_UID = ?d, gp_OrgID = ?org\<rparr> = Inr ps"
    by (simp add: nested_GetParents_def)
  show ?thesis
  proof (cases "sint (h + word_of_nat (length ps) + 2) \<le> 8")
    case True
    from Move_cycle_loop [OF assms Inr ps True] show ?thesis
      by blast
  next
    case False
    with assms(1,2,3) Inr ps show ?thesis
      by (simp add: Move_def Let_def MaxNestedFolderDepth_def)
  qed
qed

subsection \<open>Get over the two tables\<close>

lemma find_SomeD: "find P xs = Some x \<Longrightarrow> x \<in> set xs \<and> P x"
  by (auto simp: find_Some_iff)

text \<open>
  Over the two tables, in nested mode, a query by UID or by id that returns a folder
  other than the root folder returns it with the id and the version of a legacy
  folder row of the org with the same UID.
\<close>

lemma Get_nested_same_uid:
  assumes "Get (spec_service col True) cmd s = Inr r" and "\<not> IsGeneral r"
    and "(q_UID cmd \<noteq> None \<and> q_UID cmd \<noteq> Some []) \<or> q_ID cmd \<noteq> None"
  shows "\<exists>d \<in> set (legacy s). dash_IsFolder d \<and> dash_OrgID d = q_OrgID cmd
           \<and> dash_UID d = UID r \<and> ID r = dash_ID d \<and> Version r = dash_Version d"
proof -
  let ?svc = "spec_service col True"
  from assms(1) obtain user where user: "q_SignedInUser cmd = Some user"
    by (cases "q_SignedInUser cmd") (auto simp: Get_def)
  from assms(1) user obtain dashFolder where look: "Get_lookup ?svc s cmd = Inr dashFolder"
    by (cases "Get_lookup ?svc s cmd") (auto simp: Get_def)
  have gen: "\<not> IsGeneral dashFolder"
  proof
    assume "IsGeneral dashFolder"
    with assms(1) user look have "r = dashFolder" by (simp add: Get_def)
    with \<open>IsGeneral dashFolder\<close> assms(2) show False by simp
  qed
  have row: "\<exists>d \<in> set (legacy s). dash_IsFolder d \<and> dash_OrgID d = q_OrgID cmd
      \<and> dashFolder = FromDashboard d
      \<and> (q_UID cmd \<noteq> None \<and> q_UID cmd \<noteq> Some [] \<longrightarrow> dash_UID d = the (q_UID cmd))"
  proof (cases "q_UID cmd \<noteq> None \<and> q_UID cmd \<noteq> Some []")
    case True
    with look obtain d where "find (folder_row (q_OrgID cmd) (the (q_UID cmd))) (legacy s) = Some d"
      "dashFolder = FromDashboard d"
      by (auto simp: Get_lookup_def getFolderByUID_def legacy_GetFolderByUID_def
          split: option.splits)
    with find_SomeD [OF this(1)] True show ?thesis
      by (auto simp: folder_row_def)
  next
    case False
    with assms(3) obtain i where i: "q_ID cmd = Some i" by auto
    have "i \<noteq> 0"
    proof
      assume "i = 0"
      with False i look have "dashFolder = GeneralFolder"
        by (auto simp: Get_lookup_def getFolderByID_def)
      with gen show False by (simp add: IsGeneral_def)
    qed
    with False i look obtain d where
      "find (\<lambda>d. dash_IsFolder d \<and> dash_OrgID d = q_OrgID cmd \<and> dash_ID d = i) (legacy s) = Some d"
      "dashFolder = FromDashboard d"
      by (auto simp: Get_lookup_def getFolderByID_def legacy_GetFolderByID_def
          split: option.splits)
    with find_SomeD [OF this(1)] False show ?thesis
      by auto
  qed
  then obtain d where d: "d \<in> set (legacy s)" "dash_IsFolder d" "dash_OrgID d = q_OrgID cmd"
    "dashFolder = FromDashboard d"
    "q_UID cmd \<noteq> None \<and> q_UID cmd \<noteq> Some [] \<longrightarrow> dash_UID d = the (q_UID cmd)"
    by blast
  let ?cmd' = "if q_ID cmd \<noteq> None then cmd\<lparr>q_ID := None, q_UID := Some (UID dashFolder)\<rparr> else cmd"
  from assms(1) user look gen obtain f where f: "nested_Get s ?cmd' = Inr f"
    and r: "r = f\<lparr>ID := ID dashFolder, Version := Version dashFolder\<rparr>"
    by (auto simp: Get_def Let_def spec_service_def spec_store_def
        split: sum.splits if_splits)
  from assms(3) d have q: "q_UID ?cmd' = Some (dash_UID d)" "q_OrgID ?cmd' = q_OrgID cmd"
    by (auto simp: FromDashboard_def)
  with f have "find (folder_key (q_OrgID cmd) (dash_UID d)) (nested s) = Some f"
    by (simp add: nested_Get_def split: option.splits)
  from find_SomeD [OF this] have "UID f = dash_UID d"
    by (simp add: folder_key_def)
  with r d show ?thesis
    by (intro bexI [of _ d]) (simp_all add: FromDashboard_def)
qed

text \<open>
  C5. The claim fails at a query by title. \<open>Get\<close> turns a query by id into one for
  the UID of the legacy folder before it asks the nested store, and passes a query by
  title on as it is: the nested store answers with a row of that title, which need
  not be the row of the legacy folder. \<open>Create\<close> saves the trimmed title in the legacy
  row and hands the title as given to the nested store, so after the two calls that
  lead from \<open>only_p\<close> to \<open>twins\<close> the legacy table finds \<open>x\<close> under the title \<open>T\<close> and
  the nested table finds \<open>y\<close>. The query for that title returns the nested row of \<open>y\<close>
  with the id 2 of the legacy row of \<open>x\<close>, while the legacy row for the UID \<open>y\<close> has
  the id 3, the one that the queries for the UID \<open>y\<close> and for the id 3 return.
\<close>

theorem Get_by_title_mixes_rows:
  "snd (Create (spec_service allow_all True) (create_under ''y'' ''T'' ''p'')
          (snd (Create (spec_service allow_all True) (create_under ''x'' ''T '' []) only_p)))
     = twins
   \<and> Get (spec_service allow_all True) (by_title ''T'') twins
     = Inr \<lparr>ID = 2, OrgID = 1, UID = ''y'', ParentUID = ''p'', Title = ''T'',
            Description = [], Version = 1\<rparr>
   \<and> GetFolderByUID (dashboardFolderStore (spec_service allow_all True)) twins 1 ''y''
     = Inr \<lparr>ID = 3, OrgID = 1, UID = ''y'', ParentUID = [], Title = ''T'',
            Description = [], Version = 1\<rparr>
   \<and> Get (spec_service allow_all True) (by_uid ''y'') twins
     = Inr \<lparr>ID = 3, OrgID = 1, UID = ''y'', ParentUID = ''p'', Title = ''T'',
            Description = [], Version = 1\<rparr>
   \<and> Get (spec_service allow_all True) (by_id 3) twins
     = Inr \<lparr>ID = 3, OrgID = 1, UID = ''y'', ParentUID = ''p'', Title = ''T'',
            Description = [], Version = 1\<rparr>"
  by code_simp

end
